theory Spec2Isabelle
  imports
    Main
    "HOL-Library.Sublist"
    "HOL-Library.Char_ord"
    "HOL-Library.List_Lexorder"
begin

section \<open>JavaScript strings and arrays\<close>

text \<open>
  A JavaScript string is modelled as a \<^typ>\<open>string\<close> (a list of characters); the
  functions below are the library calls the sources make, under their JavaScript names.
  \<open>slice_end s k\<close> is \<open>s.slice(0, -k)\<close> and \<open>slice_from k s\<close> is \<open>s.slice(k)\<close>.
\<close>

definition startsWith :: "string \<Rightarrow> string \<Rightarrow> bool" where
  "startsWith s pre \<longleftrightarrow> take (length pre) s = pre"

definition endsWith :: "string \<Rightarrow> string \<Rightarrow> bool" where
  "endsWith s suf \<longleftrightarrow> length suf \<le> length s \<and> drop (length s - length suf) s = suf"

definition slice_end :: "string \<Rightarrow> nat \<Rightarrow> string" where
  "slice_end s k = take (length s - k) s"

definition slice_from :: "nat \<Rightarrow> string \<Rightarrow> string" where
  "slice_from k s = drop k s"

text \<open>\<open>xs.join(sep)\<close> of an array of strings.\<close>

fun join :: "string \<Rightarrow> string list \<Rightarrow> string" where
  "join sep [] = []"
| "join sep [x] = x"
| "join sep (x # y # ys) = x @ sep @ join sep (y # ys)"

text \<open>
  \<open>str_includes s pat\<close> is \<open>s.includes(pat)\<close>, and \<open>replace s pat rep\<close> is
  \<open>s.replace(pat, rep)\<close> for a string pattern: the first occurrence only. (The replacement texts of the sources contain no \<open>$\<close>, so the
  replacement patterns of JavaScript never apply.)
\<close>

fun str_includes :: "string \<Rightarrow> string \<Rightarrow> bool" where
  "str_includes [] pat \<longleftrightarrow> pat = []"
| "str_includes (c # cs) pat \<longleftrightarrow> startsWith (c # cs) pat \<or> str_includes cs pat"

fun replace :: "string \<Rightarrow> string \<Rightarrow> string \<Rightarrow> string" where
  "replace [] pat rep = (if pat = [] then rep else [])"
| "replace (c # cs) pat rep =
     (if startsWith (c # cs) pat then rep @ drop (length pat) (c # cs)
      else c # replace cs pat rep)"

text \<open>
  \<open>ascii_lower\<close> puts the letters \<open>A\<close> to \<open>Z\<close> in lower case and leaves every other
  character as it is. This is how a case-insensitive regular expression without the
  unicode flag compares ASCII letters. \<open>String.prototype.toLowerCase\<close> itself, which
  also changes letters beyond ASCII, is a library function and a parameter of the
  model; on a text of ASCII characters it is \<open>ascii_lower\<close>.
\<close>

definition ascii_lower_char :: "char \<Rightarrow> char" where
  "ascii_lower_char c =
     (if CHR ''A'' \<le> c \<and> c \<le> CHR ''Z'' then
        ''abcdefghijklmnopqrstuvwxyz'' ! (of_char c - 65)
      else c)"

definition ascii_lower :: "string \<Rightarrow> string" where
  "ascii_lower s = map ascii_lower_char s"

section \<open>Paths and the file system\<close>

text \<open>
  A path string denotes the list of its segments, read from the working directory:
  empty segments and \<open>.\<close> are dropped and \<open>..\<close> removes the segment before it, as Node
  resolves paths. An absolute path keeps the root as a first segment \<open>/\<close>.
\<close>

fun split_slash :: "string \<Rightarrow> string list" where
  "split_slash [] = [[]]"
| "split_slash (c # cs) =
     (if c = CHR ''/'' then [] # split_slash cs
      else (case split_slash cs of
              [] \<Rightarrow> [[c]]
            | w # ws \<Rightarrow> (c # w) # ws))"

definition norm_step :: "string \<Rightarrow> string list \<Rightarrow> string list" where
  "norm_step seg stack =
     (if seg = [] \<or> seg = ''.'' then stack
      else if seg = ''..'' then
        (if stack = [] \<or> last stack = ''..'' then stack @ [seg]
         else if stack = [''/''] then stack
         else butlast stack)
      else stack @ [seg])"

definition segments :: "string \<Rightarrow> string list" where
  "segments p =
     fold norm_step (split_slash p) (if startsWith p ''/'' then [''/''] else [])"

text \<open>
  \<open>path.join(a, b)\<close>: empty arguments are ignored. Node also normalises the result;
  here every consumer of a path reads it through \<^const>\<open>segments\<close>, so the joined text
  denotes the same file.
\<close>

definition path_join :: "string \<Rightarrow> string \<Rightarrow> string" where
  "path_join a b = (if a = [] then b else if b = [] then a else a @ ''/'' @ b)"

text \<open>\<open>path.dirname(p)\<close>, up to the spelling of the directory it denotes.\<close>

definition path_dirname :: "string \<Rightarrow> string" where
  "path_dirname p =
     (if p = [] then ''.''
      else
        (let r1 = dropWhile (\<lambda>c. c = CHR ''/'') (rev p);
             r2 = dropWhile (\<lambda>c. c \<noteq> CHR ''/'') r1;
             r3 = dropWhile (\<lambda>c. c = CHR ''/'') r2
         in if r1 = [] then ''/''
            else if r2 = [] then ''.''
            else if r3 = [] then ''/''
            else rev r3))"

text \<open>
  \<open>path.relative(from, to)\<close>: one \<open>..\<close> for every segment of \<open>from\<close> below the common
  directory, then the segments of \<open>to\<close> below it.
\<close>

definition path_relative :: "string \<Rightarrow> string \<Rightarrow> string" where
  "path_relative from to =
     (let f = segments from;
          t = segments to;
          n = length (longest_common_prefix f t)
      in join ''/'' (replicate (length f - n) ''..'' @ drop n t))"

text \<open>
  The file system is the list of its files, each the segments of its path with its
  content. A directory exists when a file lies below it. Writes always succeed:
  permissions and full disks are not part of the model.
\<close>

type_synonym filesystem = "(string list \<times> string) list"

text \<open>\<open>fs.existsSync(p)\<close>; the empty path names nothing.\<close>

definition existsSync :: "filesystem \<Rightarrow> string \<Rightarrow> bool" where
  "existsSync fs p \<longleftrightarrow> p \<noteq> [] \<and> list_ex (\<lambda>(q, c). prefix (segments p) q) fs"

text \<open>\<open>fs.readFileSync(p, "utf-8")\<close>: \<open>None\<close> when there is no such file, where Node raises.\<close>

definition readFileSync :: "filesystem \<Rightarrow> string \<Rightarrow> string option" where
  "readFileSync fs p = map_of fs (segments p)"

definition writeFileSync :: "string \<Rightarrow> string \<Rightarrow> filesystem \<Rightarrow> filesystem" where
  "writeFileSync p data fs =
     (segments p, data) # filter (\<lambda>(q, c). q \<noteq> segments p) fs"

text \<open>
  \<open>fs.rmSync(p, { recursive: true, force: true })\<close>; with \<open>force\<close> a path that does not
  exist, the empty path among them, removes nothing.
\<close>

definition rmSync :: "string \<Rightarrow> filesystem \<Rightarrow> filesystem" where
  "rmSync p fs = (if p = [] then fs else filter (\<lambda>(q, c). \<not> prefix (segments p) q) fs)"

section \<open>Route derivation at build time\<close>

text \<open>
  \<open>filePathToRoute\<close> of the build script, as the routing design document gives it.
  The \<open>replace\<close> with the pattern for a final \<open>.zen\<close> removes that extension, and
  \<open>withoutExt.slice(0, -6)\<close> removes the six characters of \<open>/index\<close>.
\<close>

definition filePathToRoute :: "string \<Rightarrow> string \<Rightarrow> string" where
  "filePathToRoute filePath pagesDir =
     (let relative = path_relative pagesDir filePath;
          withoutExt = (if endsWith relative ''.zen'' then slice_end relative 4 else relative)
      in if withoutExt = ''index'' then ''/''
         else if endsWith withoutExt ''/index'' then ''/'' @ slice_end withoutExt 6
         else ''/'' @ withoutExt)"

section \<open>Route resolution at request time\<close>

text \<open>
  The body of the development server's \<open>fetch\<close>, as the routing design document gives
  it, from the request's pathname to the file it serves. \<open>static_asset\<close> is the test
  \<open>url.pathname.match(/\.(js|css|ico|png|jpg|svg)$/)\<close>.
\<close>

definition static_asset :: "string \<Rightarrow> bool" where
  "static_asset pathname \<longleftrightarrow>
     list_ex (\<lambda>ext. endsWith pathname (''.'' @ ext))
       [''js'', ''css'', ''ico'', ''png'', ''jpg'', ''svg'']"

definition fetch_filePath :: "filesystem \<Rightarrow> string \<Rightarrow> string" where
  "fetch_filePath fs pathname =
     (if static_asset pathname then ''./playground/dist'' @ pathname
      else if pathname = ''/'' then ''./playground/dist/index.html''
      else
        (let htmlPath = ''./playground/dist'' @ pathname @ ''.html''
         in if existsSync fs htmlPath then htmlPath
            else
              (let indexPath = ''./playground/dist'' @ pathname @ ''/index.html''
               in if existsSync fs indexPath then indexPath
                  else ''./playground/dist/index.html'')))"

section \<open>The source parser\<close>

text \<open>
  A node of the tree the HTML parser returns, with the fields the sources read:
  \<open>nodeName\<close>, \<open>attrs\<close> (elements only), \<open>value\<close> (text nodes only) and
  \<open>childNodes\<close>. A node without \<open>childNodes\<close> has the empty list here: the sources
  treat the two alike (\<open>childNodes?.length\<close> is falsy, \<open>forEach\<close> visits nothing).
  The parser itself is a library and a parameter of the model.
\<close>

type_synonym attr = "string \<times> string"

datatype node =
  Node (nodeName: string) (attrs: "attr list option") (node_value: "string option")
    (childNodes: "node list")

datatype error = ENOENT | TypeError

record block =
  content :: string
  index :: nat

record ZenFile =
  html :: string
  scripts :: "block list"
  styles :: "block list"

definition extractTextContent :: "node \<Rightarrow> string" where
  "extractTextContent n =
     (if childNodes n = [] then []
      else join []
        (map (\<lambda>c. case node_value c of None \<Rightarrow> [] | Some v \<Rightarrow> v)
          (filter (\<lambda>c. nodeName c = ''#text'') (childNodes n))))"

text \<open>
  The state of \<open>parseZen\<close>'s walk: the two arrays and the two counters of its closure.
\<close>

record parse_state =
  scripts_found :: "block list"
  styles_found :: "block list"
  scriptIndex :: nat
  stylesIndex :: nat

definition push_script :: "node \<Rightarrow> parse_state \<Rightarrow> parse_state" where
  "push_script n st =
     (if nodeName n = ''script'' \<and> childNodes n \<noteq> [] then
        st\<lparr>scripts_found :=
             scripts_found st @ [\<lparr>content = extractTextContent n, index = scriptIndex st\<rparr>],
           scriptIndex := scriptIndex st + 1\<rparr>
      else st)"

definition push_style :: "node \<Rightarrow> parse_state \<Rightarrow> parse_state" where
  "push_style n st =
     (if nodeName n = ''style'' \<and> childNodes n \<noteq> [] then
        st\<lparr>styles_found :=
             styles_found st @ [\<lparr>content = extractTextContent n, index = stylesIndex st\<rparr>],
           stylesIndex := stylesIndex st + 1\<rparr>
      else st)"

fun parseZen_walk :: "node \<Rightarrow> parse_state \<Rightarrow> parse_state"
  and parseZen_walk_children :: "node list \<Rightarrow> parse_state \<Rightarrow> parse_state" where
  "parseZen_walk (Node nm at v cs) st =
     parseZen_walk_children cs (push_style (Node nm at v cs) (push_script (Node nm at v cs) st))"
| "parseZen_walk_children [] st = st"
| "parseZen_walk_children (c # cs) st = parseZen_walk_children cs (parseZen_walk c st)"

definition parseZen :: "(string \<Rightarrow> node) \<Rightarrow> filesystem \<Rightarrow> string \<Rightarrow> error + ZenFile" where
  "parseZen parse5_parse fs path =
     (case readFileSync fs path of
        None \<Rightarrow> Inl ENOENT
      | Some source \<Rightarrow>
          (let document = parse5_parse source;
               st = parseZen_walk document
                      \<lparr>scripts_found = [], styles_found = [], scriptIndex = 0, stylesIndex = 0\<rparr>
           in Inr \<lparr>html = source, scripts = scripts_found st, styles = styles_found st\<rparr>))"

section \<open>The event-attribute rewriter\<close>

text \<open>
  \<open>eventTypes\<close> is a JavaScript \<open>Set\<close>: it keeps each member once, in the order of
  first insertion.
\<close>

definition set_add :: "string \<Rightarrow> string list \<Rightarrow> string list" where
  "set_add x s = (if x \<in> set s then s else s @ [x])"

text \<open>
  The function mapped over \<open>node.attrs\<close>, with the set it adds to. Its first argument
  stands for \<open>String.prototype.toLowerCase\<close>. The tests on the lower-cased name read
  its first two characters, \<open>o\<close> and \<open>n\<close>, and whether a third follows, and \<open>slice(2)\<close>
  drops those two: one character each in every encoding of the text.
\<close>

definition transform_attr ::
  "(string \<Rightarrow> string) \<Rightarrow> attr \<Rightarrow> string list \<Rightarrow> attr \<times> string list" where
  "transform_attr toLowerCase a eventTypes =
     (let attrName = toLowerCase (fst a)
      in if startsWith attrName ''on'' \<and> length attrName > 2 then
           (let eventType = slice_from 2 attrName
            in ((''data-zen-'' @ eventType, snd a), set_add eventType eventTypes))
         else (a, eventTypes))"

fun transform_attrs ::
  "(string \<Rightarrow> string) \<Rightarrow> attr list \<Rightarrow> string list \<Rightarrow> attr list \<times> string list" where
  "transform_attrs toLowerCase [] eventTypes = ([], eventTypes)"
| "transform_attrs toLowerCase (a # as) eventTypes =
     (let (a', eventTypes1) = transform_attr toLowerCase a eventTypes;
          (as', eventTypes2) = transform_attrs toLowerCase as eventTypes1
      in (a' # as', eventTypes2))"

fun transform_walk ::
  "(string \<Rightarrow> string) \<Rightarrow> node \<Rightarrow> string list \<Rightarrow> node \<times> string list"
  and transform_walk_children ::
  "(string \<Rightarrow> string) \<Rightarrow> node list \<Rightarrow> string list \<Rightarrow> node list \<times> string list" where
  "transform_walk toLowerCase (Node nm at v cs) eventTypes =
     (let (at', eventTypes1) =
            (case at of
               None \<Rightarrow> (None, eventTypes)
             | Some as \<Rightarrow>
                 (let (as', t) = transform_attrs toLowerCase as eventTypes in (Some as', t)));
          (cs', eventTypes2) = transform_walk_children toLowerCase cs eventTypes1
      in (Node nm at' v cs', eventTypes2))"
| "transform_walk_children toLowerCase [] eventTypes = ([], eventTypes)"
| "transform_walk_children toLowerCase (c # cs) eventTypes =
     (let (c', eventTypes1) = transform_walk toLowerCase c eventTypes;
          (cs', eventTypes2) = transform_walk_children toLowerCase cs eventTypes1
      in (c' # cs', eventTypes2))"

definition transformEventAttributes ::
  "(string \<Rightarrow> string) \<Rightarrow> (string \<Rightarrow> node) \<Rightarrow> (node \<Rightarrow> string) \<Rightarrow> string \<Rightarrow>
     string \<times> string list" where
  "transformEventAttributes toLowerCase parse5_parse parse5_serialize h =
     (let (document, eventTypes) = transform_walk toLowerCase (parse5_parse h) []
      in (parse5_serialize document, eventTypes))"

text \<open>
  \<open>stripScriptAndStyleTags\<close> deletes every match of a regular expression, global and
  case-insensitive, first for \<open>script\<close> and then for \<open>style\<close>: the text \<open><script\<close>,
  any characters but \<open>>\<close>, a \<open>>\<close>, then as few characters as possible up to the closing
  tag \<open></script>\<close>. \<open>match_tag name s\<close> is what is left of \<open>s\<close> after a match that starts
  at its first character; \<open>strip_tag\<close> scans from the left and goes on after each match.
\<close>

definition ci_startsWith :: "string \<Rightarrow> string \<Rightarrow> bool" where
  "ci_startsWith s pat \<longleftrightarrow> startsWith (ascii_lower s) pat"

definition after_gt :: "string \<Rightarrow> string option" where
  "after_gt s =
     (case dropWhile (\<lambda>c. c \<noteq> CHR ''>'') s of
        [] \<Rightarrow> None
      | c # rest \<Rightarrow> Some rest)"

fun after_close :: "string \<Rightarrow> string \<Rightarrow> string option" where
  "after_close closing [] = None"
| "after_close closing (c # cs) =
     (if ci_startsWith (c # cs) closing then Some (drop (length closing) (c # cs))
      else after_close closing cs)"

definition match_tag :: "string \<Rightarrow> string \<Rightarrow> string option" where
  "match_tag name s =
     (if ci_startsWith s (''<'' @ name) then
        (case after_gt (drop (length name + 1) s) of
           None \<Rightarrow> None
         | Some body \<Rightarrow> after_close (''</'' @ name @ ''>'') body)
      else None)"

lemma after_gt_length: "after_gt s = Some r \<Longrightarrow> length r < length s"
proof -
  assume a: "after_gt s = Some r"
  then obtain c where "dropWhile (\<lambda>c. c \<noteq> CHR ''>'') s = c # r"
    by (auto simp: after_gt_def split: list.splits)
  then have "length (dropWhile (\<lambda>c. c \<noteq> CHR ''>'') s) = Suc (length r)"
    by simp
  moreover have "length (dropWhile (\<lambda>c. c \<noteq> CHR ''>'') s) \<le> length s"
    by (rule length_dropWhile_le)
  ultimately show ?thesis by simp
qed

lemma after_close_length: "after_close closing s = Some r \<Longrightarrow> length r \<le> length s"
  by (induction s) (auto split: if_splits)

lemma match_tag_length: "match_tag name s = Some r \<Longrightarrow> length r < length s"
proof -
  assume a: "match_tag name s = Some r"
  then obtain body where b: "after_gt (drop (length name + 1) s) = Some body"
    and c: "after_close (''</'' @ name @ ''>'') body = Some r"
    by (auto simp: match_tag_def split: if_splits option.splits)
  from b have "length body < length (drop (length name + 1) s)"
    by (rule after_gt_length)
  moreover from c have "length r \<le> length body"
    by (rule after_close_length)
  ultimately show ?thesis by simp
qed

function strip_tag :: "string \<Rightarrow> string \<Rightarrow> string" where
  "strip_tag name [] = []"
| "strip_tag name (c # cs) =
     (case match_tag name (c # cs) of
        Some rest \<Rightarrow> strip_tag name rest
      | None \<Rightarrow> c # strip_tag name cs)"
  by pat_completeness auto
termination
proof (relation "measure (\<lambda>(name, s). length s)")
  show "wf (measure (\<lambda>(name, s). length s))" by simp
next
  fix name c cs rest
  assume "match_tag name (c # cs) = Some rest"
  then have "length rest < length (c # cs)" by (rule match_tag_length)
  then show "((name, rest), (name, c # cs)) \<in> measure (\<lambda>(name, s). length s)" by simp
next
  fix name c cs
  show "((name, cs), (name, c # cs)) \<in> measure (\<lambda>(name, s). length s)" by simp
qed

definition stripScriptAndStyleTags :: "string \<Rightarrow> string" where
  "stripScriptAndStyleTags h = strip_tag ''style'' (strip_tag ''script'' h)"

text \<open>
  \<open>splitZen\<close>. \<open>Array.from(eventTypes).sort()\<close> sorts strings by their code units, the
  lexicographic order of \<^typ>\<open>string\<close>.
\<close>

record split_result =
  split_html :: string
  split_scripts :: "string list"
  split_styles :: "string list"
  split_eventTypes :: "string list"

definition splitZen ::
  "(string \<Rightarrow> string) \<Rightarrow> (string \<Rightarrow> node) \<Rightarrow> (node \<Rightarrow> string) \<Rightarrow> ZenFile \<Rightarrow>
     split_result" where
  "splitZen toLowerCase parse5_parse parse5_serialize file =
     (let (transformedHtml, eventTypes) =
            transformEventAttributes toLowerCase parse5_parse parse5_serialize (html file)
      in \<lparr>split_html = stripScriptAndStyleTags transformedHtml,
          split_scripts = map content (scripts file),
          split_styles = map content (styles file),
          split_eventTypes = sort eventTypes\<rparr>)"

section \<open>The runtime synthesizer\<close>

text \<open>
  \<open>generateEventBindingRuntime\<close> returns a fixed text around
  \<open>JSON.stringify(eventTypes)\<close>. The serialiser is a library function and a parameter
  of the model.
\<close>

definition runtime_helpers :: "string list" where
  \<open>runtime_helpers =
     [''// Phase 2 runtime helpers - DOM manipulation methods on HTMLElement prototype'',
      ''HTMLElement.prototype.show = function() { this.style.display = "block"; }'',
      ''HTMLElement.prototype.hide = function() { this.style.display = "none"; }'',
      ''HTMLElement.prototype.addClass = function(name) { this.classList.add(name); }'',
      ''HTMLElement.prototype.removeClass = function(name) { this.classList.remove(name); }'',
      ''HTMLElement.prototype.setText = function(text) { this.textContent = text; }'',
      ''HTMLElement.prototype.setHTML = function(html) { this.innerHTML = html; }'']\<close>

definition runtime_delegate :: "string list" where
  \<open>runtime_delegate =
     [''// Phase 2: Dynamic delegated event listener - single generic function for all event types'',
      ''function delegate(event) {'',
      ''  let type = event.type;'',
      ''  let el = event.target;'',
      ''  while (el && !el.hasAttribute(`data-zen-${type}`)) el = el.parentElement;'',
      ''  const handlerName = el?.getAttribute(`data-zen-${type}`);'',
      ''  if (handlerName && typeof window[handlerName] === "function") {'',
      ''    window[handlerName](event, el);'',
      ''  }'',
      ''}'']\<close>

definition generateEventBindingRuntime :: "(string list \<Rightarrow> string) \<Rightarrow> string list \<Rightarrow> string" where
  "generateEventBindingRuntime JSON_stringify eventTypes =
     (let eventTypesStr = JSON_stringify eventTypes
      in join ''\<newline>''
           ([[]] @ runtime_helpers @ [[]] @ runtime_delegate @
            [[],
             ''// Attach delegate function to all detected event types dynamically'',
             ''const zenEvents = '' @ eventTypesStr @ '';'',
             ''zenEvents.forEach(type => {'',
             ''  document.addEventListener(type, delegate);'',
             ''});'',
             []]))"

text \<open>
  The script assembly of \<open>compile\<close>. A string is truthy when it is not empty.
  \<open>scriptsWithRuntime\<close> is the assembly of the compiler with the binding runtimes,
  \<open>scriptsWithEvents\<close> the one of the earlier \<open>compiler/index.ts\<close>, which has the event
  runtime only.
\<close>

definition assemble :: "string \<Rightarrow> string \<Rightarrow> string \<Rightarrow> nat \<Rightarrow> string \<Rightarrow> string" where
  "assemble bindingRuntime attributeBindingRuntime eventRuntime i s =
     (let result0 = [];
          result1 = (if bindingRuntime \<noteq> [] then
                       result0 @ bindingRuntime @ ''\<newline>\<newline>'' else result0);
          result2 = (if attributeBindingRuntime \<noteq> [] then
                       result1 @ attributeBindingRuntime @ ''\<newline>\<newline>'' else result1);
          result3 = result2 @ s;
          result4 = (if eventRuntime \<noteq> [] \<and> i = 0 then
                       result3 @ ''\<newline>\<newline>'' @ eventRuntime else result3)
      in result4)"

definition scriptsWithRuntime :: "string \<Rightarrow> string \<Rightarrow> string \<Rightarrow> string list \<Rightarrow> string list" where
  "scriptsWithRuntime bindingRuntime attributeBindingRuntime eventRuntime ss =
     map (\<lambda>(i, s). assemble bindingRuntime attributeBindingRuntime eventRuntime i s)
       (enumerate 0 ss)"

definition scriptsWithEvents :: "string \<Rightarrow> string list \<Rightarrow> string list" where
  "scriptsWithEvents runtimeSnippet ss =
     map (\<lambda>s. if runtimeSnippet \<noteq> [] then s @ ''\<newline>\<newline>'' @ runtimeSnippet else s) ss"

section \<open>The emitter\<close>

fun string_of_nat :: "nat \<Rightarrow> string" where
  "string_of_nat n =
     (if n < 10 then [''0123456789'' ! n]
      else string_of_nat (n div 10) @ [''0123456789'' ! (n mod 10)])"

declare string_of_nat.simps [simp del]

text \<open>
  \<open>fs.mkdirSync(p, { recursive: true })\<close> creates no file, and directories are implicit
  in this model of the file system. \<open>fs.copyFileSync\<close> copies a file; a directory in
  the place of the source file is outside the model.
\<close>

definition mkdirSync :: "string \<Rightarrow> filesystem \<Rightarrow> filesystem" where
  "mkdirSync p fs = fs"

definition copyFileSync :: "string \<Rightarrow> string \<Rightarrow> filesystem \<Rightarrow> filesystem" where
  "copyFileSync src dest fs =
     (case readFileSync fs src of
        None \<Rightarrow> fs
      | Some data \<Rightarrow> writeFileSync dest data fs)"

definition styleLinks :: "string list \<Rightarrow> string" where
  \<open>styleLinks sts =
     join ''\<newline>''
       (map (\<lambda>i. ''<link rel="stylesheet" href="./style-'' @ string_of_nat i @ ''.css">'')
         [0..<length sts])\<close>

definition scriptTags :: "string list \<Rightarrow> string" where
  \<open>scriptTags ss =
     join ''\<newline>''
       (map (\<lambda>i. ''<script src="./script-'' @ string_of_nat i @ ''.js" defer></script>'')
         [0..<length ss])\<close>

definition faviconLink :: string where
  \<open>faviconLink = ''<link rel="icon" type="image/x-icon" href="./favicon.ico">''\<close>

definition outputHTML :: "string \<Rightarrow> string list \<Rightarrow> string list \<Rightarrow> string" where
  "outputHTML h ss sts =
     (let out1 =
            (if str_includes h ''</head>'' then
               replace h ''</head>'' (faviconLink @ ''\<newline></head>'')
             else if str_includes h ''<head>'' then
               replace h ''<head>'' (''<head>\<newline>'' @ faviconLink)
             else faviconLink @ ''\<newline>'' @ h);
          out2 =
            (if styleLinks sts \<noteq> [] then
               (if str_includes out1 ''</head>'' then
                  replace out1 ''</head>'' (styleLinks sts @ ''\<newline></head>'')
                else styleLinks sts @ ''\<newline>'' @ out1)
             else out1);
          out3 =
            (if scriptTags ss \<noteq> [] then
               (if str_includes out2 ''</body>'' then
                  replace out2 ''</body>'' (scriptTags ss @ ''\<newline></body>'')
                else out2 @ ''\<newline>'' @ scriptTags ss)
             else out2)
      in out3)"

text \<open>
  \<open>emit\<close> of \<open>compiler/emit.ts\<close>: the favicon, then \<open>index.html\<close>, then one file for
  every script and every style, all directly under \<open>outDir\<close>. It has no route
  parameter.
\<close>

definition write_all :: "string \<Rightarrow> string \<Rightarrow> string \<Rightarrow> string list \<Rightarrow> filesystem \<Rightarrow> filesystem" where
  "write_all outDir stem ext xs fs =
     fold (\<lambda>(i, data). writeFileSync (path_join outDir (stem @ string_of_nat i @ ext)) data)
       (enumerate 0 xs) fs"

definition emit ::
  "string \<Rightarrow> string \<Rightarrow> string list \<Rightarrow> string list \<Rightarrow> string option \<Rightarrow> filesystem \<Rightarrow> filesystem" where
  "emit outDir h ss sts entryPath fs =
     (let fs1 = mkdirSync outDir fs;
          fs2 =
            (case entryPath of
               None \<Rightarrow> fs1
             | Some e \<Rightarrow>
                 if e = [] then fs1
                 else
                   (let entryDir = path_dirname e;
                        faviconPath = path_join entryDir ''favicon.ico''
                    in if existsSync fs1 faviconPath then
                         copyFileSync faviconPath (path_join outDir ''favicon.ico'') fs1
                       else fs1));
          fs3 = writeFileSync (path_join outDir ''index.html'') (outputHTML h ss sts) fs2;
          fs4 = write_all outDir ''script-'' ''.js'' ss fs3;
          fs5 = write_all outDir ''style-'' ''.css'' sts fs4
      in fs5)"

section \<open>The compiler entry point\<close>

text \<open>
  What \<open>compile\<close> calls and the sources do not hold: \<open>String.prototype.toLowerCase\<close>,
  the HTML parser and serialiser, \<open>JSON.stringify\<close>, the component processor and the
  two binding runtimes, each of the latter as a function of the processed page.
\<close>

record externals =
  toLowerCase :: "string \<Rightarrow> string"
  parse5_parse :: "string \<Rightarrow> node"
  parse5_serialize :: "node \<Rightarrow> string"
  JSON_stringify :: "string list \<Rightarrow> string"
  processComponents :: "ZenFile \<Rightarrow> string \<Rightarrow> ZenFile"
  generateBindingRuntime :: "ZenFile \<Rightarrow> string"
  generateAttributeBindingRuntime :: "ZenFile \<Rightarrow> string"

text \<open>
  \<open>compile\<close> with the binding runtimes: it removes \<open>outDir\<close> when it exists, before it
  reads the page. The result is the error raised, if any, and the file system left.
\<close>

definition compile :: "externals \<Rightarrow> string \<Rightarrow> string \<Rightarrow> filesystem \<Rightarrow> error option \<times> filesystem" where
  "compile ext entry outDir fs =
     (let fs1 = (if existsSync fs outDir then rmSync outDir fs else fs)
      in case parseZen (parse5_parse ext) fs1 entry of
           Inl e \<Rightarrow> (Some e, fs1)
         | Inr zen \<Rightarrow>
             (let processedZen = processComponents ext zen entry;
                  sp = splitZen (toLowerCase ext) (parse5_parse ext) (parse5_serialize ext)
                         processedZen;
                  eventRuntime =
                    generateEventBindingRuntime (JSON_stringify ext) (split_eventTypes sp);
                  bindingRuntime = generateBindingRuntime ext processedZen;
                  attributeBindingRuntime = generateAttributeBindingRuntime ext processedZen;
                  withRuntime =
                    scriptsWithRuntime bindingRuntime attributeBindingRuntime eventRuntime
                      (split_scripts sp)
              in (None, emit outDir (split_html sp) withRuntime (split_styles sp) (Some entry) fs1)))"

text \<open>The earlier \<open>compile\<close> of \<open>compiler/index.ts\<close>: no clearing, the event runtime only.\<close>

definition compile_index :: "externals \<Rightarrow> string \<Rightarrow> string \<Rightarrow> filesystem \<Rightarrow> error option \<times> filesystem" where
  "compile_index ext entry outDir fs =
     (case parseZen (parse5_parse ext) fs entry of
        Inl e \<Rightarrow> (Some e, fs)
      | Inr zen \<Rightarrow>
          (let sp = splitZen (toLowerCase ext) (parse5_parse ext) (parse5_serialize ext) zen;
               runtimeSnippet =
                 generateEventBindingRuntime (JSON_stringify ext) (split_eventTypes sp);
               withEvents = scriptsWithEvents runtimeSnippet (split_scripts sp)
           in (None, emit outDir (split_html sp) withEvents (split_styles sp) (Some entry) fs)))"

section \<open>The generated event delegate\<close>

text \<open>
  The function \<open>delegate\<close> of the generated runtime, over a model of the page: an
  element has attributes and a parent element or none, so the chain of parents is
  finite, as in a document tree. The target of an event is an element or some other
  event target (the document, the window, a text node), which has no \<open>hasAttribute\<close>:
  calling it raises a \<open>TypeError\<close>. \<open>window\<close> maps a name to whether the global of
  that name is a function. The result is the error raised, or the calls made: the
  name of the handler invoked and the element passed to it.
\<close>

datatype element = Element (attributes: "attr list") (parentElement: "element option")

datatype event_target = ElementTarget element | OtherTarget

record event =
  event_type :: string
  target :: event_target

definition hasAttribute :: "element \<Rightarrow> string \<Rightarrow> bool" where
  "hasAttribute el a \<longleftrightarrow> a \<in> set (map fst (attributes el))"

definition getAttribute :: "element \<Rightarrow> string \<Rightarrow> string option" where
  "getAttribute el a = map_of (attributes el) a"

fun walk_up :: "string \<Rightarrow> element \<Rightarrow> element option" where
  "walk_up a (Element as parent) =
     (if hasAttribute (Element as parent) a then Some (Element as parent)
      else (case parent of
              None \<Rightarrow> None
            | Some p \<Rightarrow> walk_up a p))"

definition delegate :: "(string \<Rightarrow> bool) \<Rightarrow> event \<Rightarrow> error + (string \<times> element) list" where
  "delegate window ev =
     (let a = ''data-zen-'' @ event_type ev
      in case target ev of
           OtherTarget \<Rightarrow> Inl TypeError
         | ElementTarget t \<Rightarrow>
             (case walk_up a t of
                None \<Rightarrow> Inr []
              | Some el \<Rightarrow>
                  (case getAttribute el a of
                     None \<Rightarrow> Inr []
                   | Some handlerName \<Rightarrow>
                       if handlerName \<noteq> [] \<and> window handlerName then Inr [(handlerName, el)]
                       else Inr [])))"

section \<open>Document order and the shape of a rewritten tree\<close>

text \<open>
  The notions the properties below are stated with. \<open>preorder\<close> lists the nodes of a
  tree in document order. \<open>has_content tag\<close> holds of an element of that tag that has
  child nodes, which is what the parser tests. \<open>entries k ns\<close> are the catalogue entries
  of the nodes \<open>ns\<close>, numbered from \<open>k\<close>. \<open>rewrite_tree f\<close> applies \<open>f\<close> to every attribute
  of a tree and changes nothing else, \<open>all_attrs\<close> lists the attributes of a tree, and
  \<open>event_words lower\<close> are the words \<open>w\<close> of the attributes whose name is \<open>on\<close>\<open>w\<close> once
  put in lower case by \<open>lower\<close>.
  \<open>simple_name n\<close> holds of the name of a file: one segment of a path.
  \<open>ancestors el\<close> is an element with its chain of parents.
\<close>

fun preorder :: "node \<Rightarrow> node list"
  and preorder_list :: "node list \<Rightarrow> node list" where
  "preorder (Node nm at v cs) = Node nm at v cs # preorder_list cs"
| "preorder_list [] = []"
| "preorder_list (c # cs) = preorder c @ preorder_list cs"

definition has_content :: "string \<Rightarrow> node \<Rightarrow> bool" where
  "has_content tag n \<longleftrightarrow> nodeName n = tag \<and> childNodes n \<noteq> []"

definition entries :: "nat \<Rightarrow> node list \<Rightarrow> block list" where
  "entries k ns = map (\<lambda>(i, n). \<lparr>content = extractTextContent n, index = i\<rparr>) (enumerate k ns)"

definition walk_inv :: "node list \<Rightarrow> parse_state \<Rightarrow> parse_state \<Rightarrow> bool" where
  "walk_inv ns st st' \<longleftrightarrow>
     scripts_found st' =
       scripts_found st @ entries (scriptIndex st) (filter (has_content ''script'') ns) \<and>
     scriptIndex st' = scriptIndex st + length (filter (has_content ''script'') ns) \<and>
     styles_found st' =
       styles_found st @ entries (stylesIndex st) (filter (has_content ''style'') ns) \<and>
     stylesIndex st' = stylesIndex st + length (filter (has_content ''style'') ns)"

fun rewrite_tree :: "(attr \<Rightarrow> attr) \<Rightarrow> node \<Rightarrow> node" where
  "rewrite_tree f (Node nm at v cs) = Node nm (map_option (map f) at) v (map (rewrite_tree f) cs)"

fun all_attrs :: "node \<Rightarrow> attr list"
  and all_attrs_list :: "node list \<Rightarrow> attr list" where
  "all_attrs (Node nm at v cs) = (case at of None \<Rightarrow> [] | Some as \<Rightarrow> as) @ all_attrs_list cs"
| "all_attrs_list [] = []"
| "all_attrs_list (c # cs) = all_attrs c @ all_attrs_list cs"

definition event_words :: "(string \<Rightarrow> string) \<Rightarrow> attr list \<Rightarrow> string set" where
  "event_words lower as = {w. w \<noteq> [] \<and> (\<exists>a \<in> set as. lower (fst a) = ''on'' @ w)}"

definition simple_name :: "string \<Rightarrow> bool" where
  "simple_name n \<longleftrightarrow> CHR ''/'' \<notin> set n \<and> n \<noteq> [] \<and> n \<noteq> ''.'' \<and> n \<noteq> ''..''"

fun ancestors :: "element \<Rightarrow> element list" where
  "ancestors (Element as parent) =
     Element as parent # (case parent of None \<Rightarrow> [] | Some p \<Rightarrow> ancestors p)"

section \<open>Example pages\<close>

text \<open>
  Concrete inputs for the examples below: three page sources with the trees an HTML
  parser gives for them, a serialiser of such trees, a JSON serialiser for names
  without special characters, and externals that neither inline components nor
  generate binding runtimes. The names of the examples are ASCII, where
  \<open>toLowerCase\<close> is \<open>ascii_lower\<close>.
\<close>

definition demo_source :: string where
  \<open>demo_source =
     ''<style>p{}</style><script>a()</script><p onclick="hi" id="x">t</p><script></script><script>b()</script>''\<close>

definition element_node :: "string \<Rightarrow> attr list \<Rightarrow> node list \<Rightarrow> node" where
  "element_node nm as cs = Node nm (Some as) None cs"

definition text_node :: "string \<Rightarrow> node" where
  "text_node t = Node ''#text'' None (Some t) []"

definition document_node :: "node list \<Rightarrow> node list \<Rightarrow> node" where
  "document_node hd_nodes body_nodes =
     Node ''#document'' None None
       [element_node ''html'' []
          [element_node ''head'' [] hd_nodes, element_node ''body'' [] body_nodes]]"

definition demo_document :: node where
  "demo_document =
     document_node
       [element_node ''style'' [] [text_node ''p{}''],
        element_node ''script'' [] [text_node ''a()'']]
       [element_node ''p'' [(''onclick'', ''hi''), (''id'', ''x'')] [text_node ''t''],
        element_node ''script'' [] [],
        element_node ''script'' [] [text_node ''b()'']]"

definition home_source :: string where "home_source = ''<style>p{}</style><h1>Home</h1>''"
definition about_source :: string where "about_source = ''<h1>About</h1>''"

definition demo_parse :: "string \<Rightarrow> node" where
  "demo_parse s =
     (if s = demo_source then demo_document
      else if s = home_source then
        document_node [element_node ''style'' [] [text_node ''p{}'']]
          [element_node ''h1'' [] [text_node ''Home'']]
      else if s = about_source then document_node [] [element_node ''h1'' [] [text_node ''About'']]
      else document_node [] [])"

fun demo_serialize :: "node \<Rightarrow> string"
  and demo_serialize_list :: "node list \<Rightarrow> string" where
  \<open>demo_serialize (Node nm at v cs) =
     (if nm = ''#text'' then (case v of None \<Rightarrow> [] | Some t \<Rightarrow> t)
      else if nm = ''#document'' then demo_serialize_list cs
      else ''<'' @ nm @
           concat (map (\<lambda>(n, x). '' '' @ n @ ''="'' @ x @ ''"'')
                    (case at of None \<Rightarrow> [] | Some as \<Rightarrow> as)) @
           ''>'' @ demo_serialize_list cs @ ''</'' @ nm @ ''>'')\<close>
| \<open>demo_serialize_list [] = []\<close>
| \<open>demo_serialize_list (c # cs) = demo_serialize c @ demo_serialize_list cs\<close>

definition demo_stringify :: "string list \<Rightarrow> string" where
  \<open>demo_stringify xs = ''['' @ join '','' (map (\<lambda>x. ''"'' @ x @ ''"'') xs) @ '']''\<close>

definition demo_ext :: externals where
  "demo_ext =
     \<lparr>toLowerCase = ascii_lower,
      parse5_parse = demo_parse,
      parse5_serialize = demo_serialize,
      JSON_stringify = demo_stringify,
      processComponents = (\<lambda>zen entry. zen),
      generateBindingRuntime = (\<lambda>zen. []),
      generateAttributeBindingRuntime = (\<lambda>zen. [])\<rparr>"

definition demo_pages :: filesystem where
  "demo_pages =
     [([''playground'', ''pages'', ''index.zen''], home_source),
      ([''playground'', ''pages'', ''about.zen''], about_source)]"

definition events_document :: node where
  "events_document =
     document_node []
       [element_node ''input'' [(''onInput'', ''typed''), (''onclick'', ''hit'')] [],
        element_node ''b'' [(''onCLICK'', ''again''), (''class'', ''on'')] [text_node ''x'']]"

definition demo_site :: filesystem where
  "demo_site = [([''playground'', ''pages'', ''demo.zen''], demo_source)]"

text \<open>
  The output root after \<open>index.zen\<close> has been compiled, and after \<open>about.zen\<close> has been
  compiled next; \<open>emitted_home\<close> and \<open>emitted_about\<close> are the two HTML documents.
\<close>

definition dist_after_home :: filesystem where
  "dist_after_home =
     [([''playground'', ''dist'', ''style-0.css''], ''p{}''),
      ([''playground'', ''dist'', ''index.html''],
       outputHTML ''<html><head></head><body><h1>Home</h1></body></html>'' [] [''p{}'']),
      ([''playground'', ''pages'', ''index.zen''], home_source),
      ([''playground'', ''pages'', ''about.zen''], about_source)]"

definition dist_after_about :: filesystem where
  "dist_after_about =
     [([''playground'', ''dist'', ''index.html''],
       outputHTML ''<html><head></head><body><h1>About</h1></body></html>'' [] []),
      ([''playground'', ''pages'', ''index.zen''], home_source),
      ([''playground'', ''pages'', ''about.zen''], about_source)]"

definition emitted_home :: string where
  "emitted_home = outputHTML ''<html><head></head><body><h1>Home</h1></body></html>'' [] [''p{}'']"

definition emitted_about :: string where
  "emitted_about = outputHTML ''<html><head></head><body><h1>About</h1></body></html>'' [] []"

text \<open>An output root with \<open>about.html\<close>, \<open>about/index.html\<close> and \<open>blog/index.html\<close>.\<close>

definition fs_demo :: filesystem where
  "fs_demo =
     [([''playground'', ''dist'', ''about.html''], ''A''),
      ([''playground'', ''dist'', ''about'', ''index.html''], ''B''),
      ([''playground'', ''dist'', ''blog'', ''index.html''], ''C'')]"

text \<open>A button inside a form that handles \<open>input\<close> events only.\<close>

definition demo_button :: element where
  "demo_button =
     Element [(''id'', ''go'')]
       (Some (Element [(''data-zen-input'', ''typed'')] (Some (Element [] None))))"

section \<open>Properties of the route derivation\<close>

lemma endsWith_iff: "endsWith s suf \<longleftrightarrow> (\<exists>p. s = p @ suf)"
proof
  assume a: "endsWith s suf"
  then have "s = take (length s - length suf) s @ suf"
    by (metis append_take_drop_id endsWith_def)
  then show "\<exists>p. s = p @ suf" ..
next
  assume "\<exists>p. s = p @ suf"
  then show "endsWith s suf" by (auto simp: endsWith_def)
qed

lemmas path_eval =
  path_relative_def segments_def startsWith_def norm_step_def endsWith_def slice_end_def

text \<open>
  Claim C3. The route of a page source strips the extension \<open>.zen\<close> from the path
  relative to the pages root: \<open>index\<close> gives \<open>/\<close>, a path that ends with \<open>/index\<close> gives
  \<open>/\<close> and what stands before that suffix, and any other path gives \<open>/\<close> and the path.
  So \<open>index.zen\<close> has the route \<open>/\<close>, \<open>about.zen\<close> has \<open>/about\<close>, \<open>blog/index.zen\<close> has
  \<open>/blog\<close> and \<open>blog/post.zen\<close> has \<open>/blog/post\<close>.
\<close>

theorem filePathToRoute_derivation:
  "(\<forall>w. path_relative pagesDir filePath = w @ ''.zen'' \<longrightarrow>
      (w = ''index'' \<longrightarrow> filePathToRoute filePath pagesDir = ''/'') \<and>
      (\<forall>p. w = p @ ''/index'' \<longrightarrow> filePathToRoute filePath pagesDir = ''/'' @ p) \<and>
      (w \<noteq> ''index'' \<and> (\<forall>p. w \<noteq> p @ ''/index'') \<longrightarrow>
         filePathToRoute filePath pagesDir = ''/'' @ w)) \<and>
   filePathToRoute ''playground/pages/index.zen'' ''./playground/pages'' = ''/'' \<and>
   filePathToRoute ''playground/pages/about.zen'' ''./playground/pages'' = ''/about'' \<and>
   filePathToRoute ''playground/pages/blog/index.zen'' ''./playground/pages'' = ''/blog'' \<and>
   filePathToRoute ''playground/pages/blog/post.zen'' ''./playground/pages'' = ''/blog/post''"
proof -
  have general: "filePathToRoute filePath pagesDir =
      (if w = ''index'' then ''/''
       else if endsWith w ''/index'' then ''/'' @ slice_end w 6 else ''/'' @ w)"
    if rel: "path_relative pagesDir filePath = w @ ''.zen''" for w
  proof -
    have e: "endsWith (w @ ''.zen'') ''.zen''" by (simp add: endsWith_iff)
    have s: "slice_end (w @ ''.zen'') 4 = w" by (simp add: slice_end_def)
    show ?thesis by (simp add: filePathToRoute_def rel e s Let_def)
  qed
  have c1: "filePathToRoute filePath pagesDir = ''/''"
    if "path_relative pagesDir filePath = w @ ''.zen''" "w = ''index''" for w
    using general [OF that(1)] that(2) by simp
  have c2: "filePathToRoute filePath pagesDir = ''/'' @ p"
    if "path_relative pagesDir filePath = w @ ''.zen''" "w = p @ ''/index''" for w p
  proof -
    have "w \<noteq> ''index''" using that(2) by (auto simp: append_eq_Cons_conv)
    moreover have "endsWith w ''/index''" using that(2) by (auto simp: endsWith_iff)
    moreover have "slice_end w 6 = p" using that(2) by (simp add: slice_end_def)
    ultimately show ?thesis using general [OF that(1)] by simp
  qed
  have c3: "filePathToRoute filePath pagesDir = ''/'' @ w"
    if "path_relative pagesDir filePath = w @ ''.zen''" "w \<noteq> ''index''"
       "\<forall>p. w \<noteq> p @ ''/index''" for w
  proof -
    have "\<not> endsWith w ''/index''" using that(3) by (simp add: endsWith_iff)
    then show ?thesis using general [OF that(1)] that(2) by simp
  qed
  have t1: "filePathToRoute ''playground/pages/index.zen'' ''./playground/pages'' = ''/''"
    by (simp add: filePathToRoute_def path_eval)
  have t2: "filePathToRoute ''playground/pages/about.zen'' ''./playground/pages'' = ''/about''"
    by (simp add: filePathToRoute_def path_eval)
  have t3: "filePathToRoute ''playground/pages/blog/index.zen'' ''./playground/pages'' = ''/blog''"
    by (simp add: filePathToRoute_def path_eval)
  have t4: "filePathToRoute ''playground/pages/blog/post.zen'' ''./playground/pages'' = ''/blog/post''"
    by (simp add: filePathToRoute_def path_eval)
  from c1 c2 c3 t1 t2 t3 t4 show ?thesis by blast
qed

text \<open>
  Witness for C3: \<open>index.zen\<close>, \<open>docs/api/index.zen\<close> and \<open>docs/intro.zen\<close> under the pages
  root \<open>pages\<close>, one for each case.
\<close>

theorem filePathToRoute_derivation_witness:
  "path_relative ''pages'' ''pages/index.zen'' = ''index'' @ ''.zen'' \<and>
   filePathToRoute ''pages/index.zen'' ''pages'' = ''/'' \<and>
   path_relative ''pages'' ''pages/docs/api/index.zen'' = (''docs/api'' @ ''/index'') @ ''.zen'' \<and>
   filePathToRoute ''pages/docs/api/index.zen'' ''pages'' = ''/'' @ ''docs/api'' \<and>
   path_relative ''pages'' ''pages/docs/intro.zen'' = ''docs/intro'' @ ''.zen'' \<and>
   ''docs/intro'' \<noteq> ''index'' \<and> (\<forall>p. ''docs/intro'' \<noteq> p @ ''/index'') \<and>
   filePathToRoute ''pages/docs/intro.zen'' ''pages'' = ''/'' @ ''docs/intro''"
proof -
  have r1: "path_relative ''pages'' ''pages/index.zen'' = ''index'' @ ''.zen''"
    by (simp add: path_eval)
  have r2: "path_relative ''pages'' ''pages/docs/api/index.zen'' = (''docs/api'' @ ''/index'') @ ''.zen''"
    by (simp add: path_eval)
  have r3: "path_relative ''pages'' ''pages/docs/intro.zen'' = ''docs/intro'' @ ''.zen''"
    by (simp add: path_eval)
  have n: "\<forall>p. ''docs/intro'' \<noteq> p @ ''/index''"
  proof (intro allI notI)
    fix p assume "''docs/intro'' = p @ ''/index''"
    then have "endsWith ''docs/intro'' ''/index''" by (auto simp: endsWith_iff)
    then show False by (simp add: endsWith_def)
  qed
  have m: "''docs/intro'' \<noteq> ''index''" by simp
  note T1 = filePathToRoute_derivation [of "''pages''" "''pages/index.zen''"]
  note T2 = filePathToRoute_derivation [of "''pages''" "''pages/docs/api/index.zen''"]
  note T3 = filePathToRoute_derivation [of "''pages''" "''pages/docs/intro.zen''"]
  from T1 r1 have a1: "filePathToRoute ''pages/index.zen'' ''pages'' = ''/''" by blast
  from T2 r2 have a2: "filePathToRoute ''pages/docs/api/index.zen'' ''pages'' = ''/'' @ ''docs/api''" by blast
  from T3 r3 n m have a3: "filePathToRoute ''pages/docs/intro.zen'' ''pages'' = ''/'' @ ''docs/intro''" by blast
  from r1 r2 r3 n m a1 a2 a3 show ?thesis by blast
qed

section \<open>Properties of the route resolver\<close>

lemmas fs_eval = existsSync_def readFileSync_def segments_def startsWith_def norm_step_def
  writeFileSync_def rmSync_def mkdirSync_def copyFileSync_def path_join_def path_dirname_def

text \<open>
  Claim C4. The resolver decides in this order: a pathname with a static-asset
  extension is the file of that path under the output root; \<open>/\<close> is \<open>index.html\<close>;
  otherwise the pathname with \<open>.html\<close> when that exists, else \<open>index.html\<close> in the
  directory of that pathname when that exists, else the root \<open>index.html\<close>. So \<open>/about\<close>
  resolves to \<open>about.html\<close> whenever that exists, whatever else exists, and on a
  pathname that is no asset the resolver returns the root document or a path that
  exists. The resolver has no failing branch.
\<close>

theorem fetch_filePath_precedence:
  "(static_asset pathname \<longrightarrow>
      fetch_filePath fs pathname = ''./playground/dist'' @ pathname) \<and>
   (\<not> static_asset pathname \<and> pathname = ''/'' \<longrightarrow>
      fetch_filePath fs pathname = ''./playground/dist/index.html'') \<and>
   (\<not> static_asset pathname \<and> pathname \<noteq> ''/'' \<and>
    existsSync fs (''./playground/dist'' @ pathname @ ''.html'') \<longrightarrow>
      fetch_filePath fs pathname = ''./playground/dist'' @ pathname @ ''.html'') \<and>
   (\<not> static_asset pathname \<and> pathname \<noteq> ''/'' \<and>
    \<not> existsSync fs (''./playground/dist'' @ pathname @ ''.html'') \<and>
    existsSync fs (''./playground/dist'' @ pathname @ ''/index.html'') \<longrightarrow>
      fetch_filePath fs pathname = ''./playground/dist'' @ pathname @ ''/index.html'') \<and>
   (\<not> static_asset pathname \<and> pathname \<noteq> ''/'' \<and>
    \<not> existsSync fs (''./playground/dist'' @ pathname @ ''.html'') \<and>
    \<not> existsSync fs (''./playground/dist'' @ pathname @ ''/index.html'') \<longrightarrow>
      fetch_filePath fs pathname = ''./playground/dist/index.html'') \<and>
   (existsSync fs ''./playground/dist/about.html'' \<longrightarrow>
      fetch_filePath fs ''/about'' = ''./playground/dist/about.html'') \<and>
   (\<not> static_asset pathname \<longrightarrow>
      fetch_filePath fs pathname = ''./playground/dist/index.html'' \<or>
      existsSync fs (fetch_filePath fs pathname))"
proof -
  have about: "\<not> static_asset ''/about''"
    by (simp add: static_asset_def endsWith_def)
  show ?thesis
    using about by (simp add: fetch_filePath_def Let_def)
qed

text \<open>
  Witness for C4: one request for each branch, on an output root that holds both
  \<open>about.html\<close> and \<open>about/index.html\<close>.
\<close>

theorem fetch_filePath_precedence_witness:
  "static_asset ''/script-0.js'' \<and>
   fetch_filePath fs_demo ''/script-0.js'' = ''./playground/dist/script-0.js'' \<and>
   \<not> static_asset ''/'' \<and>
   fetch_filePath fs_demo ''/'' = ''./playground/dist/index.html'' \<and>
   \<not> static_asset ''/about'' \<and>
   existsSync fs_demo ''./playground/dist/about.html'' \<and>
   existsSync fs_demo ''./playground/dist/about/index.html'' \<and>
   fetch_filePath fs_demo ''/about'' = ''./playground/dist/about.html'' \<and>
   \<not> static_asset ''/blog'' \<and>
   \<not> existsSync fs_demo ''./playground/dist/blog.html'' \<and>
   existsSync fs_demo ''./playground/dist/blog/index.html'' \<and>
   fetch_filePath fs_demo ''/blog'' = ''./playground/dist/blog/index.html'' \<and>
   \<not> static_asset ''/unknown'' \<and>
   \<not> existsSync fs_demo ''./playground/dist/unknown.html'' \<and>
   \<not> existsSync fs_demo ''./playground/dist/unknown/index.html'' \<and>
   fetch_filePath fs_demo ''/unknown'' = ''./playground/dist/index.html''"
proof -
  have s1: "static_asset ''/script-0.js''" by (simp add: static_asset_def endsWith_def)
  have s2: "\<not> static_asset ''/''" by (simp add: static_asset_def endsWith_def)
  have s3: "\<not> static_asset ''/about''" by (simp add: static_asset_def endsWith_def)
  have s4: "\<not> static_asset ''/blog''" by (simp add: static_asset_def endsWith_def)
  have s5: "\<not> static_asset ''/unknown''" by (simp add: static_asset_def endsWith_def)
  have e1: "existsSync fs_demo ''./playground/dist/about.html''"
    by (simp add: fs_demo_def fs_eval)
  have e2: "existsSync fs_demo ''./playground/dist/about/index.html''"
    by (simp add: fs_demo_def fs_eval)
  have e3: "\<not> existsSync fs_demo ''./playground/dist/blog.html''"
    by (simp add: fs_demo_def fs_eval)
  have e4: "existsSync fs_demo ''./playground/dist/blog/index.html''"
    by (simp add: fs_demo_def fs_eval)
  have e5: "\<not> existsSync fs_demo ''./playground/dist/unknown.html''"
    by (simp add: fs_demo_def fs_eval)
  have e6: "\<not> existsSync fs_demo ''./playground/dist/unknown/index.html''"
    by (simp add: fs_demo_def fs_eval)
  have a1: "fetch_filePath fs_demo ''/script-0.js'' = ''./playground/dist/script-0.js''"
    using fetch_filePath_precedence [of "''/script-0.js''" fs_demo] s1 by simp
  have a2: "fetch_filePath fs_demo ''/'' = ''./playground/dist/index.html''"
    using fetch_filePath_precedence [of "''/''" fs_demo] s2 by simp
  have a3: "fetch_filePath fs_demo ''/about'' = ''./playground/dist/about.html''"
    using fetch_filePath_precedence [of "''/about''" fs_demo] s3 e1 by simp
  have a4: "fetch_filePath fs_demo ''/blog'' = ''./playground/dist/blog/index.html''"
    using fetch_filePath_precedence [of "''/blog''" fs_demo] s4 e3 e4 by simp
  have a5: "fetch_filePath fs_demo ''/unknown'' = ''./playground/dist/index.html''"
    using fetch_filePath_precedence [of "''/unknown''" fs_demo] s5 e5 e6 by simp
  from s1 s2 s3 s4 s5 e1 e2 e3 e4 e5 e6 a1 a2 a3 a4 a5 show ?thesis by blast
qed

section \<open>Properties of the source parser\<close>

lemma entries_Nil: "entries k [] = []"
  by (simp add: entries_def)

lemma entries_append: "entries k (xs @ ys) = entries k xs @ entries (k + length xs) ys"
  by (simp add: entries_def enumerate_append_eq)

lemma entries_single: "entries k [n] = [\<lparr>content = extractTextContent n, index = k\<rparr>]"
  by (simp add: entries_def)

lemma map_index_entries: "map index (entries k ns) = [k..<k + length ns]"
  by (induction ns arbitrary: k) (simp_all add: entries_def upt_rec)

lemma length_entries: "length (entries k ns) = length ns"
  by (simp add: entries_def)

lemma map_content_entries: "map content (entries k ns) = map extractTextContent ns"
  by (induction ns arbitrary: k) (simp_all add: entries_def)

lemma walk_inv_Nil: "walk_inv [] st st"
  by (simp add: walk_inv_def entries_Nil)

lemma walk_inv_trans:
  "walk_inv xs st st1 \<Longrightarrow> walk_inv ys st1 st2 \<Longrightarrow> walk_inv (xs @ ys) st st2"
  by (simp add: walk_inv_def entries_append)

lemma walk_inv_push: "walk_inv [n] st (push_style n (push_script n st))"
  by (simp add: walk_inv_def push_style_def push_script_def has_content_def entries_single entries_Nil)

lemma parseZen_walk_inv:
  "walk_inv (preorder n) st (parseZen_walk n st)"
  "walk_inv (preorder_list cs) st (parseZen_walk_children cs st)"
proof (induction n st and cs st rule: parseZen_walk_parseZen_walk_children.induct)
  case (1 nm at v cs st)
  have "walk_inv ([Node nm at v cs] @ preorder_list cs) st
          (parseZen_walk_children cs (push_style (Node nm at v cs) (push_script (Node nm at v cs) st)))"
    by (rule walk_inv_trans [OF walk_inv_push "1.IH"])
  then show ?case by simp
next
  case (2 st)
  show ?case by (simp add: walk_inv_Nil)
next
  case (3 c cs st)
  have "walk_inv (preorder c @ preorder_list cs) st
          (parseZen_walk_children cs (parseZen_walk c st))"
    by (rule walk_inv_trans [OF "3.IH"(1) "3.IH"(2)])
  then show ?case by simp
qed

text \<open>
  Claim C9. For a source file that can be read, \<open>parseZen\<close> returns the source text
  unchanged as the markup, and one entry for every \<open>script\<close> element with child nodes
  and one for every such \<open>style\<close> element, each list in document order, with the
  indices \<open>0, 1, 2, ...\<close> in that order.
\<close>

theorem parseZen_catalogs:
  "readFileSync fs path = Some source \<longrightarrow>
     (\<exists>zen. parseZen parser fs path = Inr zen \<and>
        html zen = source \<and>
        map content (scripts zen) =
          map extractTextContent
            (filter (has_content ''script'') (preorder (parser source))) \<and>
        map index (scripts zen) = [0..<length (scripts zen)] \<and>
        map content (styles zen) =
          map extractTextContent
            (filter (has_content ''style'') (preorder (parser source))) \<and>
        map index (styles zen) = [0..<length (styles zen)])"
proof
  assume r: "readFileSync fs path = Some source"
  define st0 where "st0 = \<lparr>scripts_found = [], styles_found = [], scriptIndex = 0, stylesIndex = 0\<rparr>"
  define st where "st = parseZen_walk (parser source) st0"
  define zen where "zen = \<lparr>html = source, scripts = scripts_found st, styles = styles_found st\<rparr>"
  have p: "parseZen parser fs path = Inr zen"
    by (simp add: parseZen_def r zen_def st_def st0_def Let_def)
  have "walk_inv (preorder (parser source)) st0 st"
    unfolding st_def by (rule parseZen_walk_inv(1))
  then have sc: "scripts zen = entries 0 (filter (has_content ''script'') (preorder (parser source)))"
    and sy: "styles zen = entries 0 (filter (has_content ''style'') (preorder (parser source)))"
    by (simp_all add: walk_inv_def st0_def zen_def)
  have "html zen = source" by (simp add: zen_def)
  moreover have "map content (scripts zen) =
      map extractTextContent (filter (has_content ''script'') (preorder (parser source)))"
    by (simp only: sc map_content_entries)
  moreover have "map index (scripts zen) = [0..<length (scripts zen)]"
    using map_index_entries [of 0] by (simp add: sc length_entries)
  moreover have "map content (styles zen) =
      map extractTextContent (filter (has_content ''style'') (preorder (parser source)))"
    by (simp only: sy map_content_entries)
  moreover have "map index (styles zen) = [0..<length (styles zen)]"
    using map_index_entries [of 0] by (simp add: sy length_entries)
  ultimately show "\<exists>zen. parseZen parser fs path = Inr zen \<and>
        html zen = source \<and>
        map content (scripts zen) =
          map extractTextContent
            (filter (has_content ''script'') (preorder (parser source))) \<and>
        map index (scripts zen) = [0..<length (scripts zen)] \<and>
        map content (styles zen) =
          map extractTextContent
            (filter (has_content ''style'') (preorder (parser source))) \<and>
        map index (styles zen) = [0..<length (styles zen)]"
    using p by blast
qed

lemmas demo_tree_eval = demo_parse_def demo_document_def document_node_def element_node_def
  text_node_def

text \<open>
  Witness for C9: a page with one style, two scripts with content and one empty script,
  which is not catalogued.
\<close>

theorem parseZen_catalogs_witness:
  "readFileSync demo_site ''playground/pages/demo.zen'' = Some demo_source \<and>
   (\<exists>zen. parseZen demo_parse demo_site ''playground/pages/demo.zen'' = Inr zen \<and>
      html zen = demo_source \<and>
      map content (scripts zen) = [''a()'', ''b()''] \<and>
      map index (scripts zen) = [0, 1] \<and>
      map content (styles zen) = [''p{}''] \<and>
      map index (styles zen) = [0])"
proof -
  have r: "readFileSync demo_site ''playground/pages/demo.zen'' = Some demo_source"
    by (simp add: readFileSync_def segments_def startsWith_def norm_step_def demo_site_def)
  have sc: "map extractTextContent
      (filter (has_content ''script'') (preorder (demo_parse demo_source))) = [''a()'', ''b()'']"
    by (simp add: demo_tree_eval has_content_def extractTextContent_def)
  have st: "map extractTextContent
      (filter (has_content ''style'') (preorder (demo_parse demo_source))) = [''p{}'']"
    by (simp add: demo_tree_eval has_content_def extractTextContent_def)
  from parseZen_catalogs [of demo_site "''playground/pages/demo.zen''" demo_source demo_parse] r
  have "\<exists>zen. parseZen demo_parse demo_site ''playground/pages/demo.zen'' = Inr zen \<and>
    html zen = demo_source \<and>
    map content (scripts zen) =
       map extractTextContent (filter (has_content ''script'') (preorder (demo_parse demo_source))) \<and>
    map index (scripts zen) = [0..<length (scripts zen)] \<and>
    map content (styles zen) =
       map extractTextContent (filter (has_content ''style'') (preorder (demo_parse demo_source))) \<and>
    map index (styles zen) = [0..<length (styles zen)]"
    by (rule mp)
  then obtain zen where z: "parseZen demo_parse demo_site ''playground/pages/demo.zen'' = Inr zen \<and>
    html zen = demo_source \<and>
    map content (scripts zen) =
       map extractTextContent (filter (has_content ''script'') (preorder (demo_parse demo_source))) \<and>
    map index (scripts zen) = [0..<length (scripts zen)] \<and>
    map content (styles zen) =
       map extractTextContent (filter (has_content ''style'') (preorder (demo_parse demo_source))) \<and>
    map index (styles zen) = [0..<length (styles zen)]" ..
  from z sc have c1: "map content (scripts zen) = [''a()'', ''b()'']" by simp
  from z st have c2: "map content (styles zen) = [''p{}'']" by simp
  from c1 have "length (scripts zen) = 2" using length_map [of content "scripts zen"] by simp
  with z have i1: "map index (scripts zen) = [0, 1]" by (simp add: upt_rec)
  from c2 have "length (styles zen) = 1" using length_map [of content "styles zen"] by simp
  with z have i2: "map index (styles zen) = [0]" by simp
  from z c1 c2 i1 i2 have "parseZen demo_parse demo_site ''playground/pages/demo.zen'' = Inr zen \<and>
      html zen = demo_source \<and>
      map content (scripts zen) = [''a()'', ''b()''] \<and>
      map index (scripts zen) = [0, 1] \<and>
      map content (styles zen) = [''p{}''] \<and>
      map index (styles zen) = [0]"
    by simp
  then have "\<exists>zen. parseZen demo_parse demo_site ''playground/pages/demo.zen'' = Inr zen \<and>
      html zen = demo_source \<and>
      map content (scripts zen) = [''a()'', ''b()''] \<and>
      map index (scripts zen) = [0, 1] \<and>
      map content (styles zen) = [''p{}''] \<and>
      map index (styles zen) = [0]" ..
  with r show ?thesis by (rule conjI)
qed

section \<open>Properties of the event-attribute rewriter\<close>

lemma event_words_Nil: "event_words lower [] = {}"
  by (simp add: event_words_def)

lemma event_words_append: "event_words lower (xs @ ys) = event_words lower xs \<union> event_words lower ys"
  by (auto simp: event_words_def)

lemma on_prefix_iff:
  "startsWith s ''on'' \<and> length s > 2 \<longleftrightarrow> (\<exists>w. w \<noteq> [] \<and> s = ''on'' @ w)"
proof
  assume a: "startsWith s ''on'' \<and> length s > 2"
  then have "s = ''on'' @ drop 2 s"
    by (metis append_take_drop_id length_Cons list.size(3) startsWith_def numeral_2_eq_2)
  moreover have "drop 2 s \<noteq> []" using a by simp
  ultimately show "\<exists>w. w \<noteq> [] \<and> s = ''on'' @ w" by blast
next
  assume "\<exists>w. w \<noteq> [] \<and> s = ''on'' @ w"
  then show "startsWith s ''on'' \<and> length s > 2"
    by (auto simp: startsWith_def)
qed

lemma transform_attr_match:
  assumes "w \<noteq> []" "lower (fst a) = ''on'' @ w"
  shows "transform_attr lower a ts = ((''data-zen-'' @ w, snd a), set_add w ts)"
proof -
  have "startsWith (lower (fst a)) ''on'' \<and> length (lower (fst a)) > 2"
    using assms on_prefix_iff by blast
  moreover have "slice_from 2 (lower (fst a)) = w"
    using assms(2) by (simp add: slice_from_def)
  ultimately show ?thesis by (simp add: transform_attr_def Let_def)
qed

lemma transform_attr_other:
  assumes "\<not> (\<exists>w. w \<noteq> [] \<and> lower (fst a) = ''on'' @ w)"
  shows "transform_attr lower a ts = (a, ts)"
proof -
  have "(startsWith (lower (fst a)) ''on'' \<and> length (lower (fst a)) > 2) = False"
    using assms on_prefix_iff by blast
  then show ?thesis by (simp only: transform_attr_def Let_def if_False)
qed

lemma set_set_add: "set (set_add x s) = insert x (set s)"
  by (auto simp: set_add_def)

lemma distinct_set_add: "distinct s \<Longrightarrow> distinct (set_add x s)"
  by (simp add: set_add_def)

lemma transform_attr_fst: "fst (transform_attr lower a ts) = fst (transform_attr lower a [])"
  by (simp add: transform_attr_def Let_def)

lemma transform_attr_set:
  "set (snd (transform_attr lower a ts)) = set ts \<union> event_words lower [a]"
proof (cases "\<exists>w. w \<noteq> [] \<and> lower (fst a) = ''on'' @ w")
  case True
  then obtain w where w: "w \<noteq> []" "lower (fst a) = ''on'' @ w" by blast
  have "event_words lower [a] = {w}" using w by (auto simp: event_words_def)
  then show ?thesis using transform_attr_match [of w lower a ts, OF w] by (simp add: set_set_add)
next
  case False
  have "event_words lower [a] = {}" using False by (auto simp: event_words_def)
  then show ?thesis using transform_attr_other [of lower a ts, OF False] by simp
qed

lemma transform_attr_distinct: "distinct ts \<Longrightarrow> distinct (snd (transform_attr lower a ts))"
  by (simp add: transform_attr_def Let_def distinct_set_add)

lemma transform_attrs_fst:
  "fst (transform_attrs lower as ts) = map (\<lambda>a. fst (transform_attr lower a [])) as"
proof (induction as arbitrary: ts)
  case Nil
  show ?case by simp
next
  case (Cons a as)
  have "fst (transform_attr lower a ts) = fst (transform_attr lower a [])" by (rule transform_attr_fst)
  with Cons.IH show ?case by (simp add: case_prod_unfold Let_def)
qed

lemma transform_attrs_set:
  "set (snd (transform_attrs lower as ts)) = set ts \<union> event_words lower as"
proof (induction as arbitrary: ts)
  case Nil
  show ?case by (simp add: event_words_Nil)
next
  case (Cons a as)
  have "event_words lower (a # as) = event_words lower [a] \<union> event_words lower as"
    using event_words_append [of lower "[a]" as] by simp
  with Cons.IH transform_attr_set show ?case
    by (simp add: case_prod_unfold Let_def Un_assoc)
qed

lemma transform_attrs_distinct:
  "distinct ts \<Longrightarrow> distinct (snd (transform_attrs lower as ts))"
proof (induction as arbitrary: ts)
  case Nil
  then show ?case by simp
next
  case (Cons a as)
  then show ?case by (simp add: case_prod_unfold Let_def transform_attr_distinct)
qed

lemma transform_walk_fst:
  "fst (transform_walk lower n ts) = rewrite_tree (\<lambda>a. fst (transform_attr lower a [])) n"
  "fst (transform_walk_children lower cs ts) = map (rewrite_tree (\<lambda>a. fst (transform_attr lower a []))) cs"
proof (induction lower n ts and lower cs ts rule: transform_walk_transform_walk_children.induct)
  case (1 lower nm at v cs ts)
  then show ?case
    by (cases at) (simp_all add: case_prod_unfold Let_def transform_attrs_fst)
next
  case (2 lower ts)
  show ?case by simp
next
  case (3 lower c cs ts)
  note ih = "3.IH"(1) "3.IH"(2) [OF refl prod.collapse]
  then show ?case by (simp add: case_prod_unfold Let_def)
qed

lemma transform_walk_set:
  "set (snd (transform_walk lower n ts)) = set ts \<union> event_words lower (all_attrs n)"
  "set (snd (transform_walk_children lower cs ts)) = set ts \<union> event_words lower (all_attrs_list cs)"
proof (induction lower n ts and lower cs ts rule: transform_walk_transform_walk_children.induct)
  case (1 lower nm at v cs ts)
  then show ?case
    by (cases at)
      (simp_all add: case_prod_unfold Let_def transform_attrs_set event_words_append
        event_words_Nil Un_assoc)
next
  case (2 lower ts)
  show ?case by (simp add: event_words_Nil)
next
  case (3 lower c cs ts)
  note ih = "3.IH"(1) "3.IH"(2) [OF refl prod.collapse]
  then show ?case by (simp add: case_prod_unfold Let_def event_words_append Un_assoc)
qed

lemma transform_walk_distinct:
  "distinct ts \<Longrightarrow> distinct (snd (transform_walk lower n ts))"
  "distinct ts \<Longrightarrow> distinct (snd (transform_walk_children lower cs ts))"
proof (induction lower n ts and lower cs ts rule: transform_walk_transform_walk_children.induct)
  case (1 lower nm at v cs ts)
  then show ?case
    by (cases at) (simp_all add: case_prod_unfold Let_def transform_attrs_distinct)
next
  case (2 lower ts)
  then show ?case by simp
next
  case (3 lower c cs ts)
  have "distinct (snd (transform_walk lower c ts))" using "3.IH"(1) "3.prems" by simp
  then have "distinct (snd (transform_walk_children lower cs (snd (transform_walk lower c ts))))"
    by (rule "3.IH"(2) [OF refl prod.collapse])
  then show ?case by (simp add: case_prod_unfold Let_def)
qed

text \<open>
  Claim C7. Whatever the document, the order of its event-handler attributes, their
  case and their repetitions, the \<open>eventTypes\<close> that \<open>splitZen\<close> returns are sorted and
  hold no name twice. Here and below \<open>lower\<close> stands for \<open>String.prototype.toLowerCase\<close>:
  the property holds whatever that function does to a name.
\<close>

theorem splitZen_eventTypes_sorted_distinct:
  "sorted (split_eventTypes (splitZen lower parser ser file)) \<and>
   distinct (split_eventTypes (splitZen lower parser ser file))"
proof -
  have d: "distinct (snd (transform_walk lower (parser (html file)) []))"
    by (rule transform_walk_distinct(1)) simp
  have "split_eventTypes (splitZen lower parser ser file) =
          sort (snd (transform_walk lower (parser (html file)) []))"
    by (simp add: splitZen_def transformEventAttributes_def case_prod_unfold Let_def)
  with d show ?thesis by simp
qed

text \<open>
  Example for C7: \<open>onInput\<close>, \<open>onclick\<close> and \<open>onCLICK\<close> give \<open>click\<close> and \<open>input\<close>, in this
  order.
\<close>

theorem splitZen_eventTypes_sorted_distinct_witness:
  "sorted (split_eventTypes
     (splitZen ascii_lower (\<lambda>s. events_document) demo_serialize \<lparr>html = [], scripts = [], styles = []\<rparr>)) \<and>
   distinct (split_eventTypes
     (splitZen ascii_lower (\<lambda>s. events_document) demo_serialize \<lparr>html = [], scripts = [], styles = []\<rparr>)) \<and>
   split_eventTypes
     (splitZen ascii_lower (\<lambda>s. events_document) demo_serialize \<lparr>html = [], scripts = [], styles = []\<rparr>) =
     [''click'', ''input'']"
proof -
  have l: "ascii_lower ''onInput'' = ''oninput''" "ascii_lower ''onclick'' = ''onclick''"
    "ascii_lower ''onCLICK'' = ''onclick''" "ascii_lower ''class'' = ''class''"
    by (simp_all add: ascii_lower_def ascii_lower_char_def)
  have w: "snd (transform_walk ascii_lower events_document []) = [''input'', ''click'']"
    by (simp add: events_document_def document_node_def element_node_def text_node_def
        transform_attr_def startsWith_def slice_from_def set_add_def l Let_def)
  have "sort [''input'', ''click''] = [''click'', ''input'']" by simp
  with w have e: "split_eventTypes
     (splitZen ascii_lower (\<lambda>s. events_document) demo_serialize \<lparr>html = [], scripts = [], styles = []\<rparr>) =
     [''click'', ''input'']"
    by (simp add: splitZen_def transformEventAttributes_def case_prod_unfold Let_def)
  from splitZen_eventTypes_sorted_distinct
         [of ascii_lower "\<lambda>s. events_document" demo_serialize
           "\<lparr>html = [], scripts = [], styles = []\<rparr>"] e
  show ?thesis by simp
qed

text \<open>
  Claim C8. The rewriter replaces every attribute whose name, once \<open>toLowerCase\<close> has
  put it in lower case, is \<open>on\<close> followed by a non-empty word by an attribute named
  \<open>data-zen-\<close> and that word, with the same value, and leaves every other attribute
  as it is; the tree is otherwise unchanged, and the event-kind set holds exactly
  the words of the replaced attributes, as \<open>toLowerCase\<close> gives them.
\<close>

theorem transformEventAttributes_rewrites:
  "fst (transformEventAttributes lower parser ser h) =
     ser (rewrite_tree (\<lambda>a. fst (transform_attr lower a [])) (parser h)) \<and>
   set (snd (transformEventAttributes lower parser ser h)) =
     {w. w \<noteq> [] \<and> (\<exists>a \<in> set (all_attrs (parser h)). lower (fst a) = ''on'' @ w)} \<and>
   (\<forall>w. w \<noteq> [] \<and> lower n = ''on'' @ w \<longrightarrow>
      fst (transform_attr lower (n, v) ts) = (''data-zen-'' @ w, v)) \<and>
   (\<not> (\<exists>w. w \<noteq> [] \<and> lower n = ''on'' @ w) \<longrightarrow>
      fst (transform_attr lower (n, v) ts) = (n, v))"
proof -
  have a: "fst (transformEventAttributes lower parser ser h) =
             ser (rewrite_tree (\<lambda>a. fst (transform_attr lower a [])) (parser h))"
    by (simp add: transformEventAttributes_def case_prod_unfold transform_walk_fst(1))
  have b: "set (snd (transformEventAttributes lower parser ser h)) =
             {w. w \<noteq> [] \<and> (\<exists>a \<in> set (all_attrs (parser h)). lower (fst a) = ''on'' @ w)}"
    using transform_walk_set(1) [of lower "parser h" "[]"]
    by (simp add: transformEventAttributes_def case_prod_unfold event_words_def Let_def)
  have c: "fst (transform_attr lower (n, v) ts) = (''data-zen-'' @ w, v)"
    if "w \<noteq> []" "lower n = ''on'' @ w" for w
    using transform_attr_match [of w lower "(n, v)" ts] that by simp
  have d: "fst (transform_attr lower (n, v) ts) = (n, v)"
    if "\<not> (\<exists>w. w \<noteq> [] \<and> lower n = ''on'' @ w)"
    using transform_attr_other [of lower "(n, v)" ts] that by simp
  from a b c d show ?thesis by blast
qed

text \<open>
  Witness for C8, on ASCII names, where \<open>toLowerCase\<close> is \<open>ascii_lower\<close>: \<open>onClick\<close> is
  replaced and \<open>id\<close> is not; the example page is serialised with \<open>data-zen-click\<close> in
  the place of \<open>onclick\<close>.
\<close>

theorem transformEventAttributes_rewrites_witness:
  \<open>''click'' \<noteq> [] \<and> ascii_lower ''onClick'' = ''on'' @ ''click'' \<and>
   fst (transform_attr ascii_lower (''onClick'', ''hi'') []) = (''data-zen-'' @ ''click'', ''hi'') \<and>
   \<not> (\<exists>w. w \<noteq> [] \<and> ascii_lower ''id'' = ''on'' @ w) \<and>
   fst (transform_attr ascii_lower (''id'', ''x'') []) = (''id'', ''x'') \<and>
   fst (transformEventAttributes ascii_lower demo_parse demo_serialize demo_source) =
     ''<html><head><style>p{}</style><script>a()</script></head><body><p data-zen-click="hi" id="x">t</p><script></script><script>b()</script></body></html>'' \<and>
   set (snd (transformEventAttributes ascii_lower demo_parse demo_serialize demo_source)) = {''click''}\<close>
proof -
  note T = transformEventAttributes_rewrites
  have l1: "ascii_lower ''onClick'' = ''on'' @ ''click''"
    by (simp add: ascii_lower_def ascii_lower_char_def)
  have l2: "ascii_lower ''id'' = ''id''"
    by (simp add: ascii_lower_def ascii_lower_char_def)
  have l3: "ascii_lower ''onclick'' = ''onclick''"
    by (simp add: ascii_lower_def ascii_lower_char_def)
  have n: "\<not> (\<exists>w. w \<noteq> [] \<and> ascii_lower ''id'' = ''on'' @ w)"
    by (simp add: l2)
  from T [of ascii_lower demo_parse demo_serialize demo_source "''onClick''" "''hi''" "[]"] l1
  have a1: "fst (transform_attr ascii_lower (''onClick'', ''hi'') []) = (''data-zen-'' @ ''click'', ''hi'')"
    by simp
  from T [of ascii_lower demo_parse demo_serialize demo_source "''id''" "''x''" "[]"] n
  have a2: "fst (transform_attr ascii_lower (''id'', ''x'') []) = (''id'', ''x'')"
    by simp
  have ev: \<open>demo_serialize (rewrite_tree (\<lambda>a. fst (transform_attr ascii_lower a [])) (demo_parse demo_source)) =
     ''<html><head><style>p{}</style><script>a()</script></head><body><p data-zen-click="hi" id="x">t</p><script></script><script>b()</script></body></html>''\<close>
    by (simp add: demo_tree_eval transform_attr_def startsWith_def slice_from_def l2 l3 Let_def)
  from T [of ascii_lower demo_parse demo_serialize demo_source "''id''" "''x''" "[]"] ev
  have a3: \<open>fst (transformEventAttributes ascii_lower demo_parse demo_serialize demo_source) =
     ''<html><head><style>p{}</style><script>a()</script></head><body><p data-zen-click="hi" id="x">t</p><script></script><script>b()</script></body></html>''\<close>
    by simp
  have attrs: "all_attrs (demo_parse demo_source) = [(''onclick'', ''hi''), (''id'', ''x'')]"
    by (simp add: demo_tree_eval)
  have "{w. w \<noteq> [] \<and> (\<exists>a \<in> set (all_attrs (demo_parse demo_source)).
           ascii_lower (fst a) = ''on'' @ w)} = {''click''}"
    by (auto simp: attrs l2 l3)
  with T [of ascii_lower demo_parse demo_serialize demo_source "''id''" "''x''" "[]"]
  have a4: "set (snd (transformEventAttributes ascii_lower demo_parse demo_serialize demo_source)) = {''click''}"
    by simp
  from l1 n a1 a2 a3 a4 show ?thesis by simp
qed

section \<open>Properties of the script assembly\<close>

lemma generateEventBindingRuntime_nonempty: "generateEventBindingRuntime js ets \<noteq> []"
  by (simp add: generateEventBindingRuntime_def Let_def runtime_helpers_def)

lemma assemble_later:
  "map (\<lambda>(i, s). assemble B A E i s) (enumerate (Suc k) xs) =
   map (\<lambda>s. (if B = [] then [] else B @ ''\<newline>\<newline>'') @
             (if A = [] then [] else A @ ''\<newline>\<newline>'') @ s) xs"
  by (induction xs arbitrary: k) (simp_all add: assemble_def Let_def)

text \<open>
  Claim C5, as amended. For a page with at least one script slot: every assembled slot
  is the text-binding runtime, the attribute-binding runtime (each followed by an
  empty line, and left out when it is empty) and then the slot's own script; the
  event runtime, which is never empty, is appended to the first slot alone, after its
  script.
\<close>

theorem scriptsWithRuntime_order:
  "generateEventBindingRuntime js ets \<noteq> [] \<and>
   (E \<noteq> [] \<longrightarrow>
     scriptsWithRuntime B A E (s # rest) =
       ((if B = [] then [] else B @ ''\<newline>\<newline>'') @
        (if A = [] then [] else A @ ''\<newline>\<newline>'') @ s @ ''\<newline>\<newline>'' @ E) #
       map (\<lambda>r. (if B = [] then [] else B @ ''\<newline>\<newline>'') @
                 (if A = [] then [] else A @ ''\<newline>\<newline>'') @ r) rest)"
proof (intro conjI impI)
  show "generateEventBindingRuntime js ets \<noteq> []"
    by (rule generateEventBindingRuntime_nonempty)
next
  assume e: "E \<noteq> []"
  have first: "assemble B A E 0 s =
      (if B = [] then [] else B @ ''\<newline>\<newline>'') @
      (if A = [] then [] else A @ ''\<newline>\<newline>'') @ s @ ''\<newline>\<newline>'' @ E"
    using e by (simp add: assemble_def Let_def)
  show "scriptsWithRuntime B A E (s # rest) =
       ((if B = [] then [] else B @ ''\<newline>\<newline>'') @
        (if A = [] then [] else A @ ''\<newline>\<newline>'') @ s @ ''\<newline>\<newline>'' @ E) #
       map (\<lambda>r. (if B = [] then [] else B @ ''\<newline>\<newline>'') @
                 (if A = [] then [] else A @ ''\<newline>\<newline>'') @ r) rest"
    unfolding scriptsWithRuntime_def using first assemble_later [of B A E 0 rest]
    by simp
qed

text \<open>
  Witness for C5: the four fragments in order in the first slot, and no event runtime
  in the second.
\<close>

theorem scriptsWithRuntime_order_witness:
  "''E'' \<noteq> [] \<and>
   scriptsWithRuntime ''B'' ''A'' ''E'' [''alert(1)'', ''two()''] =
     [''B\<newline>\<newline>A\<newline>\<newline>alert(1)\<newline>\<newline>E'', ''B\<newline>\<newline>A\<newline>\<newline>two()'']"
  using scriptsWithRuntime_order [of "\<lambda>xs. []" "[]" "''E''" "''B''" "''A''" "''alert(1)''" "[''two()'']"]
  by simp

text \<open>
  Counterexample for C5 as stated: a page without script slots has no assembled script,
  so the event runtime appears in it not once but never.
\<close>

theorem scriptsWithRuntime_no_slot:
  "scriptsWithRuntime ''B'' ''A'' ''E'' [] = [] \<and>
   length (filter (\<lambda>slot. str_includes slot ''E'') (scriptsWithRuntime ''B'' ''A'' ''E'' [])) \<noteq> 1"
  by (simp add: scriptsWithRuntime_def)

text \<open>
  The earlier \<open>compile\<close> of \<open>compiler/index.ts\<close> appends its runtime to every slot.
\<close>

lemma scriptsWithEvents_every_slot:
  "E \<noteq> [] \<Longrightarrow> scriptsWithEvents E ss = map (\<lambda>s. s @ ''\<newline>\<newline>'' @ E) ss"
  by (simp add: scriptsWithEvents_def)

section \<open>Properties of the generated delegate\<close>

lemma walk_up_unmatched:
  "(\<forall>e \<in> set (ancestors el). \<not> hasAttribute e a) \<Longrightarrow> walk_up a el = None"
proof (induction a el rule: walk_up.induct)
  case (1 a as parent)
  show ?case
  proof (cases parent)
    case None
    with 1 show ?thesis by simp
  next
    case (Some p)
    with 1 show ?thesis by simp
  qed
qed

text \<open>
  When the target of the event is an element, and neither it nor any of its ancestors
  carries the attribute \<open>data-zen-\<close> with the type of the event, the walk up the
  parents ends with no element, and \<open>delegate\<close> returns without an error and without
  a call of a handler.
\<close>

lemma delegate_unmatched_noop:
  "target ev = ElementTarget el \<and>
   (\<forall>e \<in> set (ancestors el). \<not> hasAttribute e (''data-zen-'' @ event_type ev)) \<longrightarrow>
     walk_up (''data-zen-'' @ event_type ev) el = None \<and> delegate window ev = Inr []"
proof
  assume a: "target ev = ElementTarget el \<and>
   (\<forall>e \<in> set (ancestors el). \<not> hasAttribute e (''data-zen-'' @ event_type ev))"
  then have w: "walk_up (''data-zen-'' @ event_type ev) el = None"
    by (simp add: walk_up_unmatched)
  with a show "walk_up (''data-zen-'' @ event_type ev) el = None \<and> delegate window ev = Inr []"
    by (simp add: delegate_def Let_def)
qed

text \<open>An example: a click on the button, whose ancestors handle \<open>input\<close> only.\<close>

lemma delegate_unmatched_noop_example:
  "target \<lparr>event_type = ''click'', target = ElementTarget demo_button\<rparr> = ElementTarget demo_button \<and>
   list_all (\<lambda>e. \<not> hasAttribute e ''data-zen-click'') (ancestors demo_button) \<and>
   walk_up ''data-zen-click'' demo_button = None \<and>
   delegate (\<lambda>name. True) \<lparr>event_type = ''click'', target = ElementTarget demo_button\<rparr> = Inr []"
proof -
  have h: "list_all (\<lambda>e. \<not> hasAttribute e ''data-zen-click'') (ancestors demo_button)"
    by (simp add: demo_button_def hasAttribute_def)
  then have "\<forall>e \<in> set (ancestors demo_button). \<not> hasAttribute e ''data-zen-click''"
    by (simp add: list_all_iff)
  with delegate_unmatched_noop
         [of "\<lparr>event_type = ''click'', target = ElementTarget demo_button\<rparr>" demo_button "\<lambda>name. True"]
  have "walk_up ''data-zen-click'' demo_button = None \<and>
        delegate (\<lambda>name. True) \<lparr>event_type = ''click'', target = ElementTarget demo_button\<rparr> = Inr []"
    by simp
  with h show ?thesis by simp
qed

text \<open>
  Claim C10 fails on the code. The listener is attached to the document, which also
  receives the events whose target is the document itself, a \<open>scroll\<close> of the page for
  one. Such a target has no ancestor with the attribute, and \<open>delegate\<close> does not return
  silently: the call of \<open>el.hasAttribute\<close> raises a \<open>TypeError\<close>.
\<close>

theorem delegate_document_target:
  "delegate (\<lambda>name. True) \<lparr>event_type = ''scroll'', target = OtherTarget\<rparr> = Inl TypeError"
  by (simp add: delegate_def)

section \<open>Properties of the build\<close>

lemmas demo_eval = demo_ext_def demo_parse_def demo_pages_def home_source_def about_source_def
  demo_source_def document_node_def element_node_def text_node_def

lemma ci_startsWith_Nil: "ci_startsWith s [] = True"
  by (simp add: ci_startsWith_def startsWith_def)

lemma ci_startsWith_Nil2: "ci_startsWith [] (p # ps) = False"
  by (simp add: ci_startsWith_def startsWith_def ascii_lower_def)

lemma ci_startsWith_Cons:
  "ci_startsWith (c # cs) (p # ps) = (if ascii_lower_char c = p then ci_startsWith cs ps else False)"
  by (simp add: ci_startsWith_def startsWith_def ascii_lower_def)

lemmas strip_eval = stripScriptAndStyleTags_def match_tag_def after_gt_def
  ci_startsWith_Nil ci_startsWith_Nil2 ci_startsWith_Cons ascii_lower_char_def

lemma home_html:
  "split_html (splitZen ascii_lower demo_parse demo_serialize \<lparr>html = home_source, scripts = ss, styles = sts\<rparr>) =
     ''<html><head></head><body><h1>Home</h1></body></html>''"
  by (simp add: splitZen_def transformEventAttributes_def demo_eval strip_eval Let_def)

lemma about_html:
  "split_html (splitZen ascii_lower demo_parse demo_serialize \<lparr>html = about_source, scripts = ss, styles = sts\<rparr>) =
     ''<html><head></head><body><h1>About</h1></body></html>''"
  by (simp add: splitZen_def transformEventAttributes_def demo_eval strip_eval Let_def)

lemma compile_home:
  "compile demo_ext ''playground/pages/index.zen'' ''./playground/dist'' demo_pages =
     (None, dist_after_home)"
proof -
  have p: "parseZen demo_parse demo_pages ''playground/pages/index.zen'' =
      Inr \<lparr>html = home_source, scripts = [], styles = [\<lparr>content = ''p{}'', index = 0\<rparr>]\<rparr>"
    by (simp add: parseZen_def fs_eval demo_eval push_script_def push_style_def
        extractTextContent_def Let_def)
  have e: "\<not> existsSync demo_pages ''./playground/dist''"
    by (simp add: fs_eval demo_pages_def)
  show ?thesis
    unfolding compile_def Let_def
    apply (simp only: e if_False)
    apply (simp add: demo_ext_def p home_html split: sum.splits)
    apply (simp add: splitZen_def case_prod_unfold scriptsWithRuntime_def emit_def write_all_def
        fs_eval demo_pages_def dist_after_home_def home_html string_of_nat.simps Let_def)
    done
qed

lemma rmSync_dist_after_home: "rmSync ''./playground/dist'' dist_after_home = demo_pages"
  by (simp add: fs_eval dist_after_home_def demo_pages_def)

lemma compile_about_fresh:
  "compile demo_ext ''playground/pages/about.zen'' ''./playground/dist'' demo_pages =
     (None, dist_after_about)"
proof -
  have p: "parseZen demo_parse demo_pages ''playground/pages/about.zen'' =
      Inr \<lparr>html = about_source, scripts = [], styles = []\<rparr>"
    by (simp add: parseZen_def fs_eval demo_eval push_script_def push_style_def
        extractTextContent_def Let_def)
  have e: "\<not> existsSync demo_pages ''./playground/dist''"
    by (simp add: fs_eval demo_pages_def)
  show ?thesis
    unfolding compile_def Let_def
    apply (simp only: e if_False)
    apply (simp add: demo_ext_def p about_html split: sum.splits)
    apply (simp add: splitZen_def case_prod_unfold scriptsWithRuntime_def emit_def write_all_def
        fs_eval demo_pages_def dist_after_about_def about_html Let_def)
    done
qed

lemma if_exists_rmSync:
  "(if existsSync fs d then rmSync d fs else fs) = rmSync d fs"
proof (cases "existsSync fs d")
  case True
  then show ?thesis by simp
next
  case False
  show ?thesis
  proof (cases "d = []")
    case True
    then show ?thesis by (simp add: rmSync_def existsSync_def)
  next
    case nonempty: False
    with False have "\<forall>x \<in> set fs. \<not> prefix (segments d) (fst x)"
      by (auto simp: existsSync_def list_ex_iff)
    then have "filter (\<lambda>(q, c). \<not> prefix (segments d) q) fs = fs"
      by (simp add: filter_id_conv case_prod_unfold)
    with False show ?thesis by (simp add: rmSync_def)
  qed
qed

lemma rmSync_idem: "rmSync d (rmSync d fs) = rmSync d fs"
  by (simp add: rmSync_def case_prod_unfold)

lemma compile_on_cleared:
  "compile ext entry outDir fs = compile ext entry outDir (rmSync outDir fs)"
  unfolding compile_def by (simp only: if_exists_rmSync rmSync_idem if_cancel)

lemma compile_about_after_home:
  "compile demo_ext ''playground/pages/about.zen'' ''./playground/dist'' dist_after_home =
     (None, dist_after_about)"
  using compile_on_cleared [of demo_ext "''playground/pages/about.zen''" "''./playground/dist''"
      dist_after_home]
  by (simp add: rmSync_dist_after_home compile_about_fresh)

text \<open>
  Claim C6 fails on the code. Every call of \<open>compile\<close> removes the output root before it
  reads its page, so in a build of two pages the second call removes what the first
  emitted: compiling \<open>index.zen\<close> emits \<open>style-0.css\<close>, and compiling \<open>about.zen\<close> next
  removes it.
\<close>

theorem compile_removes_earlier_page:
  "compile demo_ext ''playground/pages/index.zen'' ''./playground/dist'' demo_pages =
     (None, dist_after_home) \<and>
   readFileSync dist_after_home ''./playground/dist/style-0.css'' = Some ''p{}'' \<and>
   readFileSync
     (snd (compile demo_ext ''playground/pages/about.zen'' ''./playground/dist'' dist_after_home))
     ''./playground/dist/style-0.css'' = None"
proof -
  have a: "readFileSync dist_after_home ''./playground/dist/style-0.css'' = Some ''p{}''"
    by (simp add: fs_eval dist_after_home_def)
  have b: "readFileSync dist_after_about ''./playground/dist/style-0.css'' = None"
    by (simp add: fs_eval dist_after_about_def)
  from a b compile_home compile_about_after_home show ?thesis by simp
qed

text \<open>What \<open>emit\<close> writes, for any page.\<close>

lemma split_slash_nonempty: "split_slash s \<noteq> []"
  by (induction s) (auto split: list.splits)

lemma split_slash_simple: "CHR ''/'' \<notin> set n \<Longrightarrow> split_slash n = [n]"
  by (induction n) auto

lemma split_slash_append:
  "split_slash (a @ CHR ''/'' # b) = split_slash a @ split_slash b"
proof (induction a)
  case Nil
  show ?case by simp
next
  case (Cons c a)
  obtain w ws where w: "split_slash a = w # ws"
    using split_slash_nonempty [of a] by (cases "split_slash a") auto
  with Cons show ?case by (auto split: list.splits)
qed

lemma segments_path_join:
  assumes "simple_name n"
  shows "segments (path_join d n) = segments d @ [n]"
proof (cases "d = []")
  case True
  have "\<not> startsWith n ''/''"
    using assms by (cases n) (auto simp: simple_name_def startsWith_def)
  then show ?thesis
    using assms True
    by (simp add: path_join_def segments_def split_slash_simple simple_name_def norm_step_def
        startsWith_def)
next
  case False
  have s: "startsWith (d @ CHR ''/'' # n) ''/'' = startsWith d ''/''"
    using False by (cases d) (auto simp: startsWith_def)
  have "segments (d @ CHR ''/'' # n) = norm_step n (segments d)"
    using assms
    by (simp add: segments_def split_slash_append split_slash_simple simple_name_def s)
  also have "\<dots> = segments d @ [n]"
    using assms by (simp add: norm_step_def simple_name_def)
  finally show ?thesis using False assms by (simp add: path_join_def simple_name_def)
qed

lemma digit_not_slash: "n < 10 \<Longrightarrow> ''0123456789'' ! n \<noteq> CHR ''/''"
proof -
  assume "n < 10"
  then have "''0123456789'' ! n \<in> set ''0123456789''"
    by (intro nth_mem) simp
  then show ?thesis by auto
qed

lemma string_of_nat_no_slash: "CHR ''/'' \<notin> set (string_of_nat n)"
proof (induction n rule: string_of_nat.induct)
  case (1 n)
  show ?case
  proof (cases "n < 10")
    case True
    then show ?thesis using digit_not_slash [of n] by (subst string_of_nat.simps) simp
  next
    case False
    have "n mod 10 < 10" by simp
    then have "''0123456789'' ! (n mod 10) \<noteq> CHR ''/''" by (rule digit_not_slash)
    with False 1 show ?thesis by (subst string_of_nat.simps) simp
  qed
qed

lemma numbered_simple:
  assumes "CHR ''/'' \<notin> set stem" "CHR ''/'' \<notin> set ext" "length stem \<ge> 3"
  shows "simple_name (stem @ string_of_nat i @ ext)"
proof -
  have l: "length (stem @ string_of_nat i @ ext) \<ge> 3" using assms(3) by simp
  have "stem @ string_of_nat i @ ext \<noteq> []" using assms(3) by auto
  moreover have "stem @ string_of_nat i @ ext \<noteq> ''.''"
  proof
    assume "stem @ string_of_nat i @ ext = ''.''"
    then have "length (stem @ string_of_nat i @ ext) = 1" by simp
    with l show False by simp
  qed
  moreover have "stem @ string_of_nat i @ ext \<noteq> ''..''"
  proof
    assume "stem @ string_of_nat i @ ext = ''..''"
    then have "length (stem @ string_of_nat i @ ext) = 2" by simp
    with l show False by simp
  qed
  ultimately show ?thesis
    using assms(1,2) string_of_nat_no_slash [of i] by (simp add: simple_name_def)
qed

lemma readFileSync_writeFileSync:
  "readFileSync (writeFileSync p d fs) q =
     (if segments q = segments p then Some d else readFileSync fs q)"
proof -
  have "map_of (filter (\<lambda>(k, c). k \<noteq> x) fs) y = map_of fs y" if "y \<noteq> x" for x y
    using that by (induction fs) auto
  then show ?thesis by (auto simp: readFileSync_def writeFileSync_def)
qed

lemma readFileSync_write_all_other:
  assumes "\<And>i. segments (path_join outDir (stem @ string_of_nat i @ ext)) \<noteq> segments q"
  shows "readFileSync (write_all outDir stem ext xs fs) q = readFileSync fs q"
proof -
  have "readFileSync (fold (\<lambda>(i, data). writeFileSync (path_join outDir (stem @ string_of_nat i @ ext)) data)
           (enumerate k xs) fs) q = readFileSync fs q" for k
  proof (induction xs arbitrary: k fs)
    case Nil
    show ?case by simp
  next
    case (Cons x xs)
    show ?case using assms [of k] by (simp add: Cons.IH readFileSync_writeFileSync)
  qed
  then show ?thesis by (simp add: write_all_def)
qed

lemma emit_always_index:
  "readFileSync (emit outDir h ss sts entryPath fs) (path_join outDir ''index.html'') =
     Some (outputHTML h ss sts)"
proof -
  have idx: "segments (path_join outDir ''index.html'') = segments outDir @ [''index.html'']"
    by (rule segments_path_join) (simp add: simple_name_def)
  have sc: "segments (path_join outDir (''script-'' @ string_of_nat i @ ''.js'')) \<noteq>
            segments (path_join outDir ''index.html'')" for i
    using segments_path_join [OF numbered_simple [of "''script-''" "''.js''" i], of outDir]
    by (simp add: idx)
  have sy: "segments (path_join outDir (''style-'' @ string_of_nat i @ ''.css'')) \<noteq>
            segments (path_join outDir ''index.html'')" for i
    using segments_path_join [OF numbered_simple [of "''style-''" "''.css''" i], of outDir]
    by (simp add: idx)
  show ?thesis
    unfolding emit_def Let_def
    by (simp only: readFileSync_write_all_other [OF sy] readFileSync_write_all_other [OF sc]
        readFileSync_writeFileSync simp_thms if_True)
qed

lemmas html_eval = outputHTML_def styleLinks_def scriptTags_def faviconLink_def startsWith_def
  Let_def

text \<open>
  Claim C1 fails on the code. \<open>index.zen\<close> has the route \<open>/\<close>; after \<open>index.zen\<close> and then
  \<open>about.zen\<close> have been compiled, the resolver maps \<open>/\<close> to \<open>index.html\<close>, which holds the
  HTML emitted for \<open>about.zen\<close> and not the HTML emitted for \<open>index.zen\<close>. In general,
  of two pages emitted into one output root the second replaces the \<open>index.html\<close> of
  the first.
\<close>

theorem build_then_resolve_index:
  "filePathToRoute ''playground/pages/index.zen'' ''./playground/pages'' = ''/'' \<and>
   compile demo_ext ''playground/pages/index.zen'' ''./playground/dist'' demo_pages =
     (None, dist_after_home) \<and>
   readFileSync dist_after_home ''./playground/dist/index.html'' = Some emitted_home \<and>
   compile demo_ext ''playground/pages/about.zen'' ''./playground/dist'' dist_after_home =
     (None, dist_after_about) \<and>
   fetch_filePath dist_after_about ''/'' = ''./playground/dist/index.html'' \<and>
   readFileSync dist_after_about (fetch_filePath dist_after_about ''/'') = Some emitted_about \<and>
   emitted_about \<noteq> emitted_home \<and>
   readFileSync (emit outDir h2 ss2 sts2 e2 (emit outDir h1 ss1 sts1 e1 fs))
     (path_join outDir ''index.html'') = Some (outputHTML h2 ss2 sts2)"
proof -
  have g: "readFileSync (emit outDir h2 ss2 sts2 e2 (emit outDir h1 ss1 sts1 e1 fs))
     (path_join outDir ''index.html'') = Some (outputHTML h2 ss2 sts2)"
    by (rule emit_always_index)
  have r: "filePathToRoute ''playground/pages/index.zen'' ''./playground/pages'' = ''/''"
    by (simp add: filePathToRoute_def path_eval)
  have a: "readFileSync dist_after_home ''./playground/dist/index.html'' = Some emitted_home"
    by (simp add: fs_eval dist_after_home_def emitted_home_def)
  have f: "fetch_filePath dist_after_about ''/'' = ''./playground/dist/index.html''"
    by (simp add: fetch_filePath_def static_asset_def endsWith_def)
  have b: "readFileSync dist_after_about ''./playground/dist/index.html'' = Some emitted_about"
    by (simp add: fs_eval dist_after_about_def emitted_about_def)
  have n: "emitted_about \<noteq> emitted_home"
    by (simp add: emitted_about_def emitted_home_def html_eval)
  from r a f b n g compile_home compile_about_after_home show ?thesis by simp
qed

text \<open>
  Claim C2 fails on the code. Whatever the page, \<open>emit\<close> writes its HTML to \<open>index.html\<close>
  directly under the output root: the name of the file does not depend on the route.
  So for \<open>about.zen\<close>, whose route is \<open>/about\<close>, it writes \<open>index.html\<close> and no
  \<open>about.html\<close>.
\<close>

theorem emit_always_writes_index:
  "readFileSync (emit outDir h ss sts entryPath fs) (path_join outDir ''index.html'') =
     Some (outputHTML h ss sts) \<and>
   filePathToRoute ''playground/pages/about.zen'' ''./playground/pages'' = ''/about'' \<and>
   readFileSync (emit ''./playground/dist'' h [] [] (Some ''playground/pages/about.zen'') demo_pages)
     ''./playground/dist/about.html'' = None \<and>
   readFileSync (emit ''./playground/dist'' h [] [] (Some ''playground/pages/about.zen'') demo_pages)
     ''./playground/dist/index.html'' = Some (outputHTML h [] [])"
proof -
  have g: "readFileSync (emit outDir h ss sts entryPath fs) (path_join outDir ''index.html'') =
     Some (outputHTML h ss sts)"
    by (rule emit_always_index)
  have r: "filePathToRoute ''playground/pages/about.zen'' ''./playground/pages'' = ''/about''"
    by (simp add: filePathToRoute_def path_eval)
  have e: "emit ''./playground/dist'' h [] [] (Some ''playground/pages/about.zen'') demo_pages =
      ([''playground'', ''dist'', ''index.html''], outputHTML h [] []) # demo_pages"
    by (simp add: emit_def write_all_def fs_eval demo_pages_def Let_def)
  have a: "readFileSync (([''playground'', ''dist'', ''index.html''], outputHTML h [] []) # demo_pages)
      ''./playground/dist/about.html'' = None"
    by (simp add: fs_eval demo_pages_def)
  have b: "readFileSync (([''playground'', ''dist'', ''index.html''], outputHTML h [] []) # demo_pages)
      ''./playground/dist/index.html'' = Some (outputHTML h [] [])"
    by (simp add: fs_eval demo_pages_def)
  from g r e a b show ?thesis by simp
qed

end
